theory Spec2Isabelle
  imports Complex_Main "HOL-Library.Multiset"
begin

section \<open>Arrays and compressed-row matrices\<close>

text \<open>
  The module \<^verbatim>\<open>stochastic_gradient.py\<close> works on NumPy arrays and SciPy CSR matrices.
  Array entries (float64) are modelled as real numbers, so the development is about the
  data flow and the linear algebra of the module, not about rounding.

  A weight array is one-dimensional (\<open>Arr1\<close>) or two-dimensional (\<open>Arr2\<close>, which carries
  its column count as a NumPy shape does, followed by its rows). An intercept is a
  zero-dimensional array (\<open>Scalar0\<close>, what \<^verbatim>\<open>np.asarray\<close> makes of a float) or a
  one-dimensional one (\<open>Vec1\<close>).
\<close>

datatype error = IndexError | ValueError | TypeError | AttributeError | KernelError nat

datatype ndarray = Arr1 "real list" | Arr2 nat "real list list"

datatype intercept_array = Scalar0 real | Vec1 "real list"

fun wf_ndarray :: "ndarray \<Rightarrow> bool" where
  "wf_ndarray (Arr1 xs) = True"
| "wf_ndarray (Arr2 n rows) = list_all (\<lambda>r. length r = n) rows"

fun atleast_2d :: "ndarray \<Rightarrow> ndarray" where
  "atleast_2d (Arr1 xs) = Arr2 (length xs) [xs]"
| "atleast_2d (Arr2 n rows) = Arr2 n rows"

fun ravel :: "ndarray \<Rightarrow> ndarray" where
  "ravel (Arr1 xs) = Arr1 xs"
| "ravel (Arr2 n rows) = Arr1 (concat rows)"

text \<open>
  A CSR matrix: its shape and the three parallel arrays \<^verbatim>\<open>data\<close>, \<^verbatim>\<open>indices\<close>,
  \<^verbatim>\<open>indptr\<close>.
\<close>

record csr =
  nrows :: nat
  ncols :: nat
  data :: "real list"
  indices :: "nat list"
  indptr :: "nat list"

text \<open>The stored entries of one dense row: the nonzero values with their columns.\<close>

definition row_nz :: "real list \<Rightarrow> (nat \<times> real) list" where
  "row_nz row = filter (\<lambda>p. snd p \<noteq> 0) (zip [0..<length row] row)"

text \<open>Row starts: the running count of stored entries.\<close>

fun offsets :: "nat \<Rightarrow> nat list \<Rightarrow> nat list" where
  "offsets k [] = [k]"
| "offsets k (n # ns) = k # offsets (k + n) ns"

definition csr_of_rows :: "nat \<Rightarrow> real list list \<Rightarrow> csr" where
  "csr_of_rows n rows =
     \<lparr> nrows = length rows, ncols = n,
       data = concat (map (\<lambda>r. map snd (row_nz r)) rows),
       indices = concat (map (\<lambda>r. map fst (row_nz r)) rows),
       indptr = offsets 0 (map (\<lambda>r. length (row_nz r)) rows) \<rparr>"

text \<open>\<^verbatim>\<open>sparse.csr_matrix(a)\<close> of a dense array; a 1-D array becomes a one-row matrix.\<close>

fun csr_matrix :: "ndarray \<Rightarrow> csr" where
  "csr_matrix (Arr1 xs) = csr_of_rows (length xs) [xs]"
| "csr_matrix (Arr2 n rows) = csr_of_rows n rows"

text \<open>Row \<open>i\<close> of a CSR matrix as (column, value) pairs, read through \<^verbatim>\<open>indptr\<close>.\<close>

definition csr_row :: "csr \<Rightarrow> nat \<Rightarrow> (nat \<times> real) list" where
  "csr_row A i =
     (let lo = indptr A ! i; hi = indptr A ! Suc i
      in zip (take (hi - lo) (drop lo (indices A))) (take (hi - lo) (drop lo (data A))))"

text \<open>The entry at column \<open>j\<close> of a sparse row; entries stored twice add up, as in SciPy.\<close>

definition row_get :: "(nat \<times> real) list \<Rightarrow> nat \<Rightarrow> real" where
  "row_get ps j = sum_list (map snd (filter (\<lambda>p. fst p = j) ps))"

text \<open>\<^verbatim>\<open>A.todense()\<close>: always two-dimensional.\<close>

definition todense :: "csr \<Rightarrow> ndarray" where
  "todense A =
     Arr2 (ncols A) (map (\<lambda>i. map (row_get (csr_row A i)) [0..<ncols A]) [0..<nrows A])"

text \<open>
  A CSR matrix as SciPy accepts it: \<^verbatim>\<open>indptr\<close> has one entry per row plus one, is
  monotone and ends at the number of stored entries, and every column index is in range.
\<close>

definition csr_wf :: "csr \<Rightarrow> bool" where
  "csr_wf A \<longleftrightarrow>
     length (indptr A) = Suc (nrows A) \<and>
     length (indices A) = length (data A) \<and>
     sorted (indptr A) \<and>
     last (indptr A) \<le> length (data A) \<and>
     list_all (\<lambda>j. j < ncols A) (indices A)"

section \<open>The model object and the external kernel\<close>

text \<open>
  Names are those of the source, without the leading and trailing underscores that an
  Isabelle name cannot have (\<^verbatim>\<open>_fit_binary\<close> is \<open>fit_binary\<close>).
  The attributes of \<^verbatim>\<open>BaseSGD\<close> that the module reads and writes; the fields
  \<open>coef\<close>, \<open>intercept\<close> and \<open>sparse_coef\<close> are the attributes \<^verbatim>\<open>coef_\<close>,
  \<^verbatim>\<open>intercept_\<close> and \<^verbatim>\<open>sparse_coef_\<close>. The selectors
  \<^verbatim>\<open>loss_function\<close>, \<^verbatim>\<open>penalty_type\<close> and \<^verbatim>\<open>learning_rate_code\<close> are opaque codes
  handed to the kernel unchanged.
\<close>

record sgd_base =
  coef :: "ndarray option"
  intercept :: intercept_array
  sparse_coef :: "csr option"
  loss_function :: nat
  penalty_type :: int
  alpha :: real
  rho :: real
  n_iter :: int
  fit_intercept :: bool
  verbose :: int
  shuffle :: bool
  seed :: int
  sample_weight :: "real list"
  learning_rate_code :: int
  eta0 :: real
  power_t :: real

text \<open>The classifier adds the class list, the per-class weights and the job count.\<close>

record sgd_classifier = sgd_base +
  classes :: "real list"
  class_weight :: "real list"
  n_jobs :: int

text \<open>The arguments of \<^verbatim>\<open>plain_sgd\<close> after the weights and the intercept, in call order.\<close>

record sgd_args =
  k_loss_function :: nat
  k_penalty_type :: int
  k_alpha :: real
  k_rho :: real
  k_X_data :: "real list"
  k_X_indices :: "int list"
  k_X_indptr :: "int list"
  k_y :: "real list"
  k_n_iter :: int
  k_fit_intercept :: int
  k_verbose :: int
  k_shuffle :: int
  k_seed :: int
  k_weight_pos :: real
  k_weight_neg :: real
  k_sample_weight :: "real list"
  k_learning_rate :: int
  k_eta0 :: real
  k_power_t :: real

text \<open>
  The kernel \<^verbatim>\<open>plain_sgd\<close> is compiled code outside the module, so it is a parameter of
  every fit. What a call does is described by its result:
  \<^item> \<open>Returned buf w b\<close>: the call returns the pair \<open>(w, b)\<close>, and \<open>buf\<close> is what the call
    has written into the weight array it was given (the caller still holds that array);
  \<^item> \<open>Raised e buf\<close>: the call raises \<open>e\<close>, having written \<open>buf\<close>.

  A kernel that is a pure function writes nothing back (\<open>buf\<close> is the array as passed); a
  kernel that updates its weight array in place and returns it has \<open>buf = w\<close>.
\<close>

datatype kernel_result = Returned "real list" "real list" real | Raised error "real list"

type_synonym kernel = "real list \<Rightarrow> intercept_array \<Rightarrow> sgd_args \<Rightarrow> kernel_result"

text \<open>What a call returns to its caller, if it returns.\<close>

fun returned :: "kernel_result \<Rightarrow> (real list \<times> real) option" where
  "returned (Returned buf w b) = Some (w, b)"
| "returned (Raised e buf) = None"

text \<open>A NumPy array has a fixed size: writing \<open>buf\<close> into the array \<open>w\<close> keeps its length.\<close>

definition written :: "real list \<Rightarrow> real list \<Rightarrow> real list" where
  "written w buf = take (length w) buf @ drop (length buf) w"

fun written_by :: "real list \<Rightarrow> kernel_result \<Rightarrow> real list" where
  "written_by w (Returned buf w' b) = written w buf"
| "written_by w (Raised e buf) = written w buf"

text \<open>
  The feature matrix handed to a fit or to a prediction: dense or already sparse
  (\<^verbatim>\<open>sparse.issparse\<close> tells the two apart). \<open>as_csr\<close> is \<^verbatim>\<open>sparse.csr_matrix(X)\<close>.
\<close>

datatype matrix_in = Dense ndarray | Sparse csr

fun as_csr :: "matrix_in \<Rightarrow> csr" where
  "as_csr (Dense a) = csr_matrix a"
| "as_csr (Sparse A) = A"

text \<open>
  \<^verbatim>\<open>np.array(X.indices, dtype=np.int32)\<close>, and the same for \<^verbatim>\<open>X.indptr\<close>: the column
  indices and the row starts reach the kernel as signed 32-bit integers, and the cast wraps
  around.
\<close>

definition int32 :: "nat \<Rightarrow> int" where
  "int32 k = (int k + 2 ^ 31) mod 2 ^ 32 - 2 ^ 31"

text \<open>A method call either returns or raises; either way the object is left in some state.\<close>

type_synonym 'm outcome = "error option \<times> 'm"

section \<open>Label encoding\<close>

text \<open>\<^verbatim>\<open>a[mask] = v\<close> for a boolean mask of the same length.\<close>

definition masked_set :: "real list \<Rightarrow> bool list \<Rightarrow> real \<Rightarrow> real list" where
  "masked_set a hits v = map (\<lambda>(x, hit). if hit then v else x) (zip a hits)"

text \<open>\<^verbatim>\<open>y_new = np.ones(y.shape) * -1.0; y_new[y == c] = 1.0\<close>\<close>

definition encode_labels :: "real list \<Rightarrow> real \<Rightarrow> real list" where
  "encode_labels y c = masked_set (map (\<lambda>_. 1 * (- 1)) y) (map (\<lambda>l. l = c) y) 1"

section \<open>\<^verbatim>\<open>_set_coef\<close>\<close>

text \<open>The classifier's and the regressor's \<^verbatim>\<open>_set_coef\<close> are the same code.\<close>

definition set_coef :: "'a sgd_base_scheme \<Rightarrow> ndarray option \<Rightarrow> 'a sgd_base_scheme" where
  "set_coef self c =
     (let self = self\<lparr>coef := c\<rparr>
      in case c of
           None \<Rightarrow> self\<lparr>sparse_coef := None\<rparr>
         | Some a \<Rightarrow> self\<lparr>sparse_coef := Some (csr_matrix a)\<rparr>)"

section \<open>\<^verbatim>\<open>SGDClassifier._fit_binary\<close>\<close>

text \<open>
  The kernel takes a weight vector: a model whose \<^verbatim>\<open>coef_\<close> is \<^verbatim>\<open>None\<close> or
  two-dimensional cannot be passed to it, and the call raises once its arguments are
  evaluated, before anything is computed.
\<close>

fun weight_vector :: "ndarray option \<Rightarrow> error + real list" where
  "weight_vector None = Inl TypeError"
| "weight_vector (Some (Arr1 w)) = Inr w"
| "weight_vector (Some (Arr2 n rows)) = Inl ValueError"

definition index :: "'a list \<Rightarrow> nat \<Rightarrow> error + 'a" where
  "index xs i = (if i < length xs then Inr (xs ! i) else Inl IndexError)"

definition int_of_bool :: "bool \<Rightarrow> int" where
  "int_of_bool b = (if b then 1 else 0)"

text \<open>
  The arguments \<^verbatim>\<open>_fit_binary\<close> evaluates for its call of \<^verbatim>\<open>plain_sgd\<close>: the weight
  vector, the intercept and the rest, or the error raised while evaluating them.
\<close>

definition binary_call ::
  "sgd_classifier \<Rightarrow> matrix_in \<Rightarrow> real list \<Rightarrow> error + (real list \<times> intercept_array \<times> sgd_args)" where
  "binary_call self X y =
     (let X = as_csr X in
      case index (classes self) 1 of Inl e \<Rightarrow> Inl e | Inr c1 \<Rightarrow>
      let y = encode_labels y c1;
          X_data = data X; X_indices = map int32 (indices X);
          X_indptr = map int32 (indptr X) in
      case index (class_weight self) 1 of Inl e \<Rightarrow> Inl e | Inr cw1 \<Rightarrow>
      case index (class_weight self) 0 of Inl e \<Rightarrow> Inl e | Inr cw0 \<Rightarrow>
      case weight_vector (coef self) of Inl e \<Rightarrow> Inl e | Inr w \<Rightarrow>
      Inr (w, intercept self,
           \<lparr> k_loss_function = loss_function self, k_penalty_type = penalty_type self,
             k_alpha = alpha self, k_rho = rho self,
             k_X_data = X_data, k_X_indices = X_indices, k_X_indptr = X_indptr, k_y = y,
             k_n_iter = n_iter self,
             k_fit_intercept = int_of_bool (fit_intercept self),
             k_verbose = verbose self,
             k_shuffle = int_of_bool (shuffle self),
             k_seed = seed self,
             k_weight_pos = cw1, k_weight_neg = cw0,
             k_sample_weight = sample_weight self,
             k_learning_rate = learning_rate_code self,
             k_eta0 = eta0 self, k_power_t = power_t self \<rparr>))"

text \<open>
  After the call the module does not use the returned weights (the local \<^verbatim>\<open>coef_\<close>): it
  reads \<^verbatim>\<open>self.coef_\<close>, the array it passed, as the kernel left it. \<open>binary_finish\<close> is
  the rest of \<^verbatim>\<open>_fit_binary\<close> from the kernel's result on; \<open>w\<close> is the content of
  \<^verbatim>\<open>self.coef_\<close> before the call.
\<close>

definition binary_finish ::
  "sgd_classifier \<Rightarrow> real list \<Rightarrow> kernel_result \<Rightarrow> sgd_classifier outcome" where
  "binary_finish self w r =
     (let self = self\<lparr>coef := Some (Arr1 (written_by w r))\<rparr>
      in case r of
           Raised e buf \<Rightarrow> (Some e, self)
         | Returned buf new_coef new_intercept \<Rightarrow>
             (let self = set_coef self (map_option atleast_2d (coef self));
                  self = self\<lparr>intercept := Scalar0 new_intercept\<rparr>
              in (None, self)))"

definition fit_binary ::
  "kernel \<Rightarrow> sgd_classifier \<Rightarrow> matrix_in \<Rightarrow> real list \<Rightarrow> sgd_classifier outcome" where
  "fit_binary plain_sgd self X y =
     (case binary_call self X y of
        Inl e \<Rightarrow> (Some e, self)
      | Inr (w, b, args) \<Rightarrow> binary_finish self w (plain_sgd w b args))"

section \<open>\<^verbatim>\<open>SGDRegressor._fit_regressor\<close>\<close>

definition regressor_call ::
  "sgd_base \<Rightarrow> matrix_in \<Rightarrow> real list \<Rightarrow> error + (real list \<times> intercept_array \<times> sgd_args)" where
  "regressor_call self X y =
     (let X = as_csr X;
          X_data = data X; X_indices = map int32 (indices X);
          X_indptr = map int32 (indptr X) in
      case weight_vector (coef self) of Inl e \<Rightarrow> Inl e | Inr w \<Rightarrow>
      Inr (w, intercept self,
           \<lparr> k_loss_function = loss_function self, k_penalty_type = penalty_type self,
             k_alpha = alpha self, k_rho = rho self,
             k_X_data = X_data, k_X_indices = X_indices, k_X_indptr = X_indptr, k_y = y,
             k_n_iter = n_iter self,
             k_fit_intercept = int_of_bool (fit_intercept self),
             k_verbose = verbose self,
             k_shuffle = int_of_bool (shuffle self),
             k_seed = seed self,
             k_weight_pos = 1, k_weight_neg = 1,
             k_sample_weight = sample_weight self,
             k_learning_rate = learning_rate_code self,
             k_eta0 = eta0 self, k_power_t = power_t self \<rparr>))"

definition regressor_finish :: "sgd_base \<Rightarrow> real list \<Rightarrow> kernel_result \<Rightarrow> sgd_base outcome" where
  "regressor_finish self w r =
     (let self = self\<lparr>coef := Some (Arr1 (written_by w r))\<rparr>
      in case r of
           Raised e buf \<Rightarrow> (Some e, self)
         | Returned buf new_coef new_intercept \<Rightarrow>
             (let self = set_coef self (coef self);
                  self = self\<lparr>intercept := Scalar0 new_intercept\<rparr>
              in (None, self)))"

definition fit_regressor ::
  "kernel \<Rightarrow> sgd_base \<Rightarrow> matrix_in \<Rightarrow> real list \<Rightarrow> sgd_base outcome" where
  "fit_regressor plain_sgd self X y =
     (case regressor_call self X y of
        Inl e \<Rightarrow> (Some e, self)
      | Inr (w, b, args) \<Rightarrow> regressor_finish self w (plain_sgd w b args))"

section \<open>\<^verbatim>\<open>_train_ova_classifier\<close> and \<^verbatim>\<open>SGDClassifier._fit_multiclass\<close>\<close>

text \<open>
  The inner function of the one-versus-all scheme, with the parameters of the source in
  their order. It returns the class index with the outcome of its kernel call: on
  \<open>Returned buf w b\<close> the Python function returns \<open>(i, w, b)\<close>.
\<close>

definition train_ova_classifier ::
  "kernel \<Rightarrow> nat \<Rightarrow> real \<Rightarrow> real list \<Rightarrow> int list \<Rightarrow> int list \<Rightarrow> real list \<Rightarrow>
   real list \<Rightarrow> intercept_array \<Rightarrow> nat \<Rightarrow> int \<Rightarrow> real \<Rightarrow> real \<Rightarrow> int \<Rightarrow> bool \<Rightarrow> int \<Rightarrow> bool \<Rightarrow>
   int \<Rightarrow> real \<Rightarrow> real list \<Rightarrow> int \<Rightarrow> real \<Rightarrow> real \<Rightarrow> nat \<times> kernel_result" where
  "train_ova_classifier plain_sgd i c X_data X_indices X_indptr y coef' intercept'
       loss_function' penalty_type' alpha' rho' n_iter' fit_intercept' verbose' shuffle'
       seed' class_weight_pos sample_weight' learning_rate eta0' power_t' =
     (let y_i = encode_labels y c
      in (i, plain_sgd coef' intercept'
                \<lparr> k_loss_function = loss_function', k_penalty_type = penalty_type',
                  k_alpha = alpha', k_rho = rho',
                  k_X_data = X_data, k_X_indices = X_indices, k_X_indptr = X_indptr,
                  k_y = y_i, k_n_iter = n_iter',
                  k_fit_intercept = int_of_bool fit_intercept',
                  k_verbose = verbose',
                  k_shuffle = int_of_bool shuffle',
                  k_seed = seed',
                  k_weight_pos = class_weight_pos, k_weight_neg = 1,
                  k_sample_weight = sample_weight', k_learning_rate = learning_rate,
                  k_eta0 = eta0', k_power_t = power_t' \<rparr>))"

text \<open>
  \<^verbatim>\<open>self.coef_[i]\<close> as a kernel argument: a row of a two-dimensional array. An element of
  a one-dimensional array is a number, not a weight vector, and the kernel rejects it;
  the error is reported where the argument is evaluated.
\<close>

fun coef_row :: "ndarray option \<Rightarrow> nat \<Rightarrow> error + real list" where
  "coef_row None i = Inl TypeError"
| "coef_row (Some (Arr1 w)) i = (if i < length w then Inl TypeError else Inl IndexError)"
| "coef_row (Some (Arr2 n rows)) i = index rows i"

text \<open>\<^verbatim>\<open>self.intercept_[i]\<close>: a zero-dimensional array cannot be indexed.\<close>

fun intercept_item :: "intercept_array \<Rightarrow> nat \<Rightarrow> error + intercept_array" where
  "intercept_item (Scalar0 b) i = Inl IndexError"
| "intercept_item (Vec1 bs) i = (case index bs i of Inl e \<Rightarrow> Inl e | Inr b \<Rightarrow> Inr (Scalar0 b))"

text \<open>
  \<^verbatim>\<open>self.coef_[i]\<close> is a view: a kernel that runs in the calling process writes into the
  row of the model itself.
\<close>

fun write_row :: "ndarray option \<Rightarrow> nat \<Rightarrow> real list \<Rightarrow> ndarray option" where
  "write_row (Some (Arr2 n rows)) i v = Some (Arr2 n (rows[i := v]))"
| "write_row a i v = a"

text \<open>
  One task of the dispatch: \<^verbatim>\<open>delayed(_train_ova_classifier)(i, c, X_data, X_indices,
  X_indptr, y, self.coef_[i], self.intercept_[i], ..., self.class_weight[i], ...)\<close>, with
  \<open>w\<close>, \<open>b\<close> and \<open>cw\<close> the values of \<^verbatim>\<open>self.coef_[i]\<close>, \<^verbatim>\<open>self.intercept_[i]\<close> and
  \<^verbatim>\<open>self.class_weight[i]\<close>, and the index arrays cast to 32-bit integers.
\<close>

definition ova_task ::
  "kernel \<Rightarrow> sgd_classifier \<Rightarrow> csr \<Rightarrow> real list \<Rightarrow> nat \<Rightarrow> real \<Rightarrow> real list \<Rightarrow> intercept_array \<Rightarrow>
   real \<Rightarrow> nat \<times> kernel_result" where
  "ova_task plain_sgd self X y i c w b cw =
     train_ova_classifier plain_sgd i c (data X) (map int32 (indices X))
       (map int32 (indptr X)) y w b
       (loss_function self) (penalty_type self) (alpha self) (rho self) (n_iter self)
       (fit_intercept self) (verbose self) (shuffle self) (seed self) cw
       (sample_weight self) (learning_rate_code self) (eta0 self) (power_t self)"

text \<open>
  What a task leaves behind in the model: run in the calling process, the kernel has
  written into row \<open>i\<close> of \<^verbatim>\<open>self.coef_\<close>; run in a worker process, on a copy, nothing.
\<close>

definition task_effect ::
  "bool \<Rightarrow> sgd_classifier \<Rightarrow> nat \<Rightarrow> real list \<Rightarrow> kernel_result \<Rightarrow> sgd_classifier" where
  "task_effect in_process self i w r =
     (if in_process then self\<lparr>coef := write_row (coef self) i (written_by w r)\<rparr> else self)"

text \<open>
  The dispatch \<^verbatim>\<open>Parallel(n_jobs=...)(delayed(_train_ova_classifier)(...) for i, c in
  enumerate(self.classes))\<close>. joblib is outside the module; the results come back in the
  order of the tasks, and the first exception of a task ends the call. Whether the tasks
  run in the calling process, on the rows of \<^verbatim>\<open>self.coef_\<close> themselves, or in worker
  processes, on copies, is the parameter \<open>in_process\<close>.
\<close>

fun ova_dispatch ::
  "kernel \<Rightarrow> bool \<Rightarrow> sgd_classifier \<Rightarrow> csr \<Rightarrow> real list \<Rightarrow> (nat \<times> real) list \<Rightarrow>
   (error + (nat \<times> real list \<times> real) list) \<times> sgd_classifier" where
  "ova_dispatch plain_sgd in_process self X y [] = (Inr [], self)"
| "ova_dispatch plain_sgd in_process self X y ((i, c) # tasks) =
     (case coef_row (coef self) i of Inl e \<Rightarrow> (Inl e, self) | Inr w \<Rightarrow>
      case intercept_item (intercept self) i of Inl e \<Rightarrow> (Inl e, self) | Inr b \<Rightarrow>
      case index (class_weight self) i of Inl e \<Rightarrow> (Inl e, self) | Inr cw \<Rightarrow>
      (let (i', r) = ova_task plain_sgd self X y i c w b cw;
           self = task_effect in_process self i w r
       in case r of
            Raised e buf \<Rightarrow> (Inl e, self)
          | Returned buf new_coef new_intercept \<Rightarrow>
              (case ova_dispatch plain_sgd in_process self X y tasks of
                 (Inl e, self) \<Rightarrow> (Inl e, self)
               | (Inr res, self) \<Rightarrow> (Inr ((i', new_coef, new_intercept) # res), self))))"

text \<open>
  \<^verbatim>\<open>self.coef_[i] = coef\<close>: NumPy checks the index, then broadcasts the value to the row
  (same length, or length one).
\<close>

fun assign_row :: "ndarray option \<Rightarrow> nat \<Rightarrow> real list \<Rightarrow> error + ndarray option" where
  "assign_row None i v = Inl TypeError"
| "assign_row (Some (Arr1 w)) i v =
     (if i < length w
      then (case v of [x] \<Rightarrow> Inr (Some (Arr1 (w[i := x]))) | _ \<Rightarrow> Inl ValueError)
      else Inl IndexError)"
| "assign_row (Some (Arr2 n rows)) i v =
     (if i < length rows
      then (if length v = n then Inr (Some (Arr2 n (rows[i := v])))
            else case v of [x] \<Rightarrow> Inr (Some (Arr2 n (rows[i := replicate n x])))
                 | _ \<Rightarrow> Inl ValueError)
      else Inl IndexError)"

text \<open>\<^verbatim>\<open>self.intercept_[i] = intercept\<close>\<close>

fun assign_item :: "intercept_array \<Rightarrow> nat \<Rightarrow> real \<Rightarrow> error + intercept_array" where
  "assign_item (Scalar0 b) i v = Inl IndexError"
| "assign_item (Vec1 bs) i v = (if i < length bs then Inr (Vec1 (bs[i := v])) else Inl IndexError)"

text \<open>The body of the loop \<^verbatim>\<open>for i, coef, intercept in res\<close>: the two assignments.\<close>

definition write_one ::
  "sgd_classifier \<Rightarrow> nat \<times> real list \<times> real \<Rightarrow> sgd_classifier outcome" where
  "write_one self t =
     (case t of (i, new_coef, new_intercept) \<Rightarrow>
        (case assign_row (coef self) i new_coef of
           Inl e \<Rightarrow> (Some e, self)
         | Inr a \<Rightarrow>
             (let self = self\<lparr>coef := a\<rparr>
              in case assign_item (intercept self) i new_intercept of
                   Inl e \<Rightarrow> (Some e, self)
                 | Inr b \<Rightarrow> (None, self\<lparr>intercept := b\<rparr>))))"

text \<open>The loop: an exception in the body ends it.\<close>

fun write_back ::
  "sgd_classifier \<Rightarrow> (nat \<times> real list \<times> real) list \<Rightarrow> sgd_classifier outcome" where
  "write_back self [] = (None, self)"
| "write_back self (t # res) =
     (case write_one self t of
        (Some e, self) \<Rightarrow> (Some e, self)
      | (None, self) \<Rightarrow> write_back self res)"

definition fit_multiclass ::
  "kernel \<Rightarrow> bool \<Rightarrow> sgd_classifier \<Rightarrow> matrix_in \<Rightarrow> real list \<Rightarrow> sgd_classifier outcome" where
  "fit_multiclass plain_sgd in_process self X y =
     (let X = as_csr X
      in case ova_dispatch plain_sgd in_process self X y (enumerate 0 (classes self)) of
           (Inl e, self) \<Rightarrow> (Some e, self)
         | (Inr res, self) \<Rightarrow>
             (case write_back self res of
                (Some e, self) \<Rightarrow> (Some e, self)
              | (None, self) \<Rightarrow>
                  (let self = set_coef self (coef self);
                       self = self\<lparr>intercept := intercept self\<rparr>
                   in (None, self))))"

section \<open>\<^verbatim>\<open>decision_function\<close> and \<^verbatim>\<open>predict\<close>\<close>

text \<open>The product of two sparse rows: the entries of the first against the second.\<close>

definition sparse_dot :: "(nat \<times> real) list \<Rightarrow> (nat \<times> real) list \<Rightarrow> real" where
  "sparse_dot ps qs = sum_list (map (\<lambda>(j, v). v * row_get qs j) ps)"

text \<open>
  \<^verbatim>\<open>np.dot(X, W.T).todense()\<close> for CSR matrices \<open>X\<close> and \<open>W\<close>: entry \<open>(i, k)\<close> is the product
  of row \<open>i\<close> of \<open>X\<close> and row \<open>k\<close> of \<open>W\<close>; the column counts must agree.
\<close>

definition dot_T :: "csr \<Rightarrow> csr \<Rightarrow> error + ndarray" where
  "dot_T X W =
     (if ncols X = ncols W
      then Inr (Arr2 (nrows W)
             (map (\<lambda>i. map (\<lambda>k. sparse_dot (csr_row X i) (csr_row W k)) [0..<nrows W])
                  [0..<nrows X]))
      else Inl ValueError)"

text \<open>
  Adding the intercept to the score matrix, with NumPy's broadcasting of a 0-D or 1-D
  array against a 2-D one (lengths agree, or one of them is one; in the last case of a
  one-column matrix a row is its single entry, written as the sum of the row).
\<close>

fun add_intercept :: "ndarray \<Rightarrow> intercept_array \<Rightarrow> error + ndarray" where
  "add_intercept (Arr2 k rows) (Scalar0 b) = Inr (Arr2 k (map (map (\<lambda>s. s + b)) rows))"
| "add_intercept (Arr2 k rows) (Vec1 bs) =
     (if length bs = k then Inr (Arr2 k (map (\<lambda>r. map (\<lambda>(s, b). s + b) (zip r bs)) rows))
      else case bs of [b] \<Rightarrow> Inr (Arr2 k (map (map (\<lambda>s. s + b)) rows))
           | _ \<Rightarrow> if k = 1
                  then Inr (Arr2 (length bs) (map (\<lambda>r. map (\<lambda>b. sum_list r + b) bs) rows))
                  else Inl ValueError)"
| "add_intercept (Arr1 xs) (Scalar0 b) = Inr (Arr1 (map (\<lambda>s. s + b) xs))"
| "add_intercept (Arr1 xs) (Vec1 bs) =
     (if length bs = length xs then Inr (Arr1 (map (\<lambda>(s, b). s + b) (zip xs bs)))
      else case bs of [b] \<Rightarrow> Inr (Arr1 (map (\<lambda>s. s + b) xs))
           | _ \<Rightarrow> (case xs of [x] \<Rightarrow> Inr (Arr1 (map (\<lambda>b. x + b) bs)) | _ \<Rightarrow> Inl ValueError))"

text \<open>
  \<^verbatim>\<open>if not sparse.issparse(X): X = sparse.csr_matrix(X)\<close> is \<open>as_csr\<close>, which converts a
  dense input and leaves a sparse one as it is.
  Both functions only read the model. They are written in the state-passing form of the
  fits, returning the model next to their result, so that this can be stated.
\<close>

definition decision_function ::
  "sgd_classifier \<Rightarrow> matrix_in \<Rightarrow> (error + ndarray) \<times> sgd_classifier" where
  "decision_function self X =
     (let X = as_csr X
      in case sparse_coef self of
           None \<Rightarrow> (Inl AttributeError, self)
         | Some W \<Rightarrow>
             (case dot_T X W of
                Inl e \<Rightarrow> (Inl e, self)
              | Inr xw \<Rightarrow>
                  (case add_intercept xw (intercept self) of
                     Inl e \<Rightarrow> (Inl e, self)
                   | Inr scores \<Rightarrow>
                       if length (classes self) = 2 then (Inr (ravel scores), self)
                       else (Inr scores, self))))"

definition predict :: "sgd_base \<Rightarrow> matrix_in \<Rightarrow> (error + ndarray) \<times> sgd_base" where
  "predict self X =
     (let X = as_csr X
      in case sparse_coef self of
           None \<Rightarrow> (Inl AttributeError, self)
         | Some W \<Rightarrow>
             (case dot_T X W of
                Inl e \<Rightarrow> (Inl e, self)
              | Inr xw \<Rightarrow>
                  (case add_intercept xw (intercept self) of
                     Inl e \<Rightarrow> (Inl e, self)
                   | Inr scores \<Rightarrow> (Inr (ravel scores), self))))"

section \<open>The contract of the prediction functions\<close>

text \<open>
  What the scores are meant to be, in the words of the contract
  \<open>scores = X \<cdot> coef\<^sup>T + intercept\<close>, on dense rows: the score of a sample \<open>x\<close> for the weight
  vector \<open>w\<close> and the intercept \<open>b\<close>.
\<close>

definition spec_score :: "real list \<Rightarrow> real list \<Rightarrow> real \<Rightarrow> real" where
  "spec_score x w b = sum_list (map (\<lambda>(a, c). a * c) (zip x w)) + b"

text \<open>The number of columns of an array read as a matrix, and its rows.\<close>

fun n_features :: "ndarray \<Rightarrow> nat" where
  "n_features (Arr1 xs) = length xs"
| "n_features (Arr2 n rows) = n"

fun dense_rows :: "ndarray \<Rightarrow> real list list" where
  "dense_rows (Arr1 xs) = [xs]"
| "dense_rows (Arr2 n rows) = rows"

text \<open>
  An input with \<open>n\<close> features: a rectangular dense array with \<open>n\<close> columns, or a CSR matrix
  that SciPy accepts, with \<open>n\<close> columns. Its samples are its rows as dense vectors.
\<close>

fun valid_input :: "nat \<Rightarrow> matrix_in \<Rightarrow> bool" where
  "valid_input n (Dense a) = (wf_ndarray a \<and> n_features a = n)"
| "valid_input n (Sparse A) = (csr_wf A \<and> ncols A = n)"

fun samples :: "matrix_in \<Rightarrow> real list list" where
  "samples (Dense a) = dense_rows a"
| "samples (Sparse A) = dense_rows (todense A)"

section \<open>Example objects\<close>

text \<open>
  The classifier of the module's docstring before its fit
  (\<^verbatim>\<open>X = [[-1, -1], [-2, -1], [1, 1], [2, 1]]\<close>, \<^verbatim>\<open>y = [1, 1, 2, 2]\<close>, default parameters),
  a three-class variant of it and a regressor, with zero initial weights. The class
  weights differ from one another so that it shows which of them reaches the kernel.
\<close>

definition example_X :: matrix_in where
  "example_X = Dense (Arr2 2 [[- 1, - 1], [- 2, - 1], [1, 1], [2, 1]])"

definition example_y :: "real list" where
  "example_y = [1, 1, 2, 2]"

definition example_classifier :: sgd_classifier where
  "example_classifier =
     \<lparr> coef = Some (Arr1 [0, 0]), intercept = Vec1 [0], sparse_coef = None,
       loss_function = 0, penalty_type = 2, alpha = 1 / 10000, rho = 1, n_iter = 5,
       fit_intercept = True, verbose = 0, shuffle = False, seed = 0,
       sample_weight = [1, 1, 1, 1], learning_rate_code = 2, eta0 = 0, power_t = 1 / 2,
       classes = [1, 2], class_weight = [3, 5], n_jobs = 1 \<rparr>"

definition example_y3 :: "real list" where
  "example_y3 = [0, 1, 2, 2]"

definition example_multiclass :: sgd_classifier where
  "example_multiclass =
     \<lparr> coef = Some (Arr2 2 [[0, 0], [0, 0], [0, 0]]), intercept = Vec1 [0, 0, 0],
       sparse_coef = None,
       loss_function = 0, penalty_type = 2, alpha = 1 / 10000, rho = 1, n_iter = 5,
       fit_intercept = True, verbose = 0, shuffle = False, seed = 0,
       sample_weight = [1, 1, 1, 1], learning_rate_code = 2, eta0 = 0, power_t = 1 / 2,
       classes = [0, 1, 2], class_weight = [3, 5, 7], n_jobs = 1 \<rparr>"

definition example_regressor :: sgd_base where
  "example_regressor =
     \<lparr> coef = Some (Arr1 [0, 0]), intercept = Vec1 [0], sparse_coef = None,
       loss_function = 3, penalty_type = 2, alpha = 1 / 10000, rho = 1, n_iter = 5,
       fit_intercept = True, verbose = 0, shuffle = False, seed = 0,
       sample_weight = [1, 1, 1, 1], learning_rate_code = 3, eta0 = 1 / 100,
       power_t = 1 / 4 \<rparr>"

text \<open>
  Three stand-ins for the kernel. Each moves every weight by the positive-class weight and
  returns the number of samples as intercept. \<open>inplace_kernel\<close> updates the array it is
  given and returns it; \<open>pure_kernel\<close> leaves its argument alone and returns a new vector;
  \<open>fragile_kernel\<close> is \<open>inplace_kernel\<close> on label vectors that start with a positive sample
  and raises on the others.
\<close>

definition inplace_kernel :: kernel where
  "inplace_kernel w b a =
     (let w' = map (\<lambda>x. x + k_weight_pos a) w
      in Returned w' w' (real (length (k_y a))))"

definition pure_kernel :: kernel where
  "pure_kernel w b a =
     Returned w (map (\<lambda>x. x + k_weight_pos a) w) (real (length (k_y a)))"


section \<open>Round trip of the CSR encoding\<close>

lemma offsets_nth_Suc:
  "i < length ns \<Longrightarrow> offsets k ns ! Suc i = offsets k ns ! i + ns ! i"
proof (induction ns arbitrary: k i)
  case Nil
  then show ?case by simp
next
  case (Cons n ns)
  show ?case
  proof (cases i)
    case 0
    then show ?thesis by (cases ns) auto
  next
    case (Suc i')
    with Cons show ?thesis by simp
  qed
qed

lemma offsets_ge: "i \<le> length ns \<Longrightarrow> k \<le> offsets k ns ! i"
proof (induction ns arbitrary: k i)
  case Nil
  then show ?case by simp
next
  case (Cons n ns)
  show ?case
  proof (cases i)
    case 0
    then show ?thesis by simp
  next
    case (Suc i')
    with Cons.prems have "i' \<le> length ns" by simp
    from Cons.IH [OF this, of "k + n"] Suc show ?thesis by simp
  qed
qed

lemma offsets_slice:
  "i < length xss \<Longrightarrow>
   take (length (xss ! i)) (drop (offsets k (map length xss) ! i - k) (concat xss)) = xss ! i"
proof (induction xss arbitrary: k i)
  case Nil
  then show ?case by simp
next
  case (Cons xs xss)
  show ?case
  proof (cases i)
    case 0
    then show ?thesis by simp
  next
    case (Suc i')
    with Cons.prems have i': "i' < length xss" by simp
    have ge: "k + length xs \<le> offsets (k + length xs) (map length xss) ! i'"
      using offsets_ge [of i' "map length xss" "k + length xs"] i' by simp
    then have "offsets (k + length xs) (map length xss) ! i' - k
             = length xs + (offsets (k + length xs) (map length xss) ! i' - (k + length xs))"
      by simp
    with Cons.IH [OF i', of "k + length xs"] Suc show ?thesis
      by simp
  qed
qed

lemma csr_of_rows_row:
  assumes "i < length rows"
  shows "csr_row (csr_of_rows n rows) i = row_nz (rows ! i)"
proof -
  let ?ls = "map (\<lambda>r. length (row_nz r)) rows"
  let ?ds = "map (\<lambda>r. map snd (row_nz r)) rows"
  let ?is = "map (\<lambda>r. map fst (row_nz r)) rows"
  have lsd: "?ls = map length ?ds" and lsi: "?ls = map length ?is"
    by (simp_all add: comp_def)
  have i: "i < length ?ls" using assms by simp
  have hi: "offsets 0 ?ls ! Suc i - offsets 0 ?ls ! i = length (row_nz (rows ! i))"
    using offsets_nth_Suc [OF i, of 0] assms by simp
  have d: "take (length (row_nz (rows ! i))) (drop (offsets 0 ?ls ! i) (concat ?ds))
           = map snd (row_nz (rows ! i))"
    using offsets_slice [of i ?ds 0] assms unfolding lsd [symmetric] by simp
  have x: "take (length (row_nz (rows ! i))) (drop (offsets 0 ?ls ! i) (concat ?is))
           = map fst (row_nz (rows ! i))"
    using offsets_slice [of i ?is 0] assms unfolding lsi [symmetric] by simp
  show ?thesis
    unfolding csr_row_def csr_of_rows_def
    by (simp add: Let_def hi d x zip_map_fst_snd)
qed

lemma filter_fst_zip_upt:
  "j < length row \<Longrightarrow> filter (\<lambda>p. fst p = j) (zip [0..<length row] row) = [(j, row ! j)]"
proof (induction row rule: rev_induct)
  case Nil
  then show ?case by simp
next
  case (snoc x xs)
  show ?case
  proof (cases "j < length xs")
    case True
    with snoc.IH show ?thesis by (simp add: nth_append)
  next
    case False
    with snoc.prems have j: "j = length xs" by simp
    have "filter (\<lambda>p. fst p = length xs) (zip [0..<length xs] xs) = []"
      by (auto simp: filter_empty_conv in_set_zip)
    with j show ?thesis by simp
  qed
qed

lemma row_get_row_nz: "j < length row \<Longrightarrow> row_get (row_nz row) j = row ! j"
proof -
  assume j: "j < length row"
  have "filter (\<lambda>p. fst p = j) (row_nz row)
        = filter (\<lambda>p. snd p \<noteq> 0) (filter (\<lambda>p. fst p = j) (zip [0..<length row] row))"
    unfolding row_nz_def by (simp add: conj_commute)
  also have "\<dots> = filter (\<lambda>p. snd p \<noteq> 0) [(j, row ! j)]"
    using filter_fst_zip_upt [OF j] by simp
  finally show ?thesis by (simp add: row_get_def)
qed

lemma todense_csr_of_rows:
  assumes "list_all (\<lambda>r. length r = n) rows"
  shows "todense (csr_of_rows n rows) = Arr2 n rows"
proof -
  have "map (\<lambda>i. map (row_get (csr_row (csr_of_rows n rows) i)) [0..<n]) [0..<length rows] = rows"
  proof (rule nth_equalityI)
    show "length (map (\<lambda>i. map (row_get (csr_row (csr_of_rows n rows) i)) [0..<n]) [0..<length rows])
          = length rows" by simp
  next
    fix i
    assume "i < length (map (\<lambda>i. map (row_get (csr_row (csr_of_rows n rows) i)) [0..<n]) [0..<length rows])"
    then have i: "i < length rows" by simp
    then have len: "length (rows ! i) = n"
      using assms by (simp add: list_all_length)
    have "map (row_get (row_nz (rows ! i))) [0..<n] = rows ! i"
      by (rule nth_equalityI) (simp_all add: len row_get_row_nz)
    with i show "map (\<lambda>i. map (row_get (csr_row (csr_of_rows n rows) i)) [0..<n]) [0..<length rows] ! i
                 = rows ! i"
      by (simp add: csr_of_rows_row)
  qed
  then show ?thesis
    by (simp add: todense_def csr_of_rows_def)
qed

lemma todense_csr_matrix:
  "wf_ndarray a \<Longrightarrow> todense (csr_matrix a) = atleast_2d a"
  by (cases a) (simp_all add: todense_csr_of_rows)

section \<open>Facts about the helpers\<close>

lemma encode_labels_eq: "encode_labels y c = map (\<lambda>l. if l = c then 1 else - 1) y"
  unfolding encode_labels_def masked_set_def
  by (induction y) auto

lemma written_length: "length (written w buf) = length w"
  by (simp add: written_def)

section \<open>Prediction\<close>

text \<open>
  Claim C9. \<^verbatim>\<open>decision_function\<close> and \<^verbatim>\<open>predict\<close> leave the model as it is, whatever the
  input and whether they return scores or raise: \<^verbatim>\<open>sparse_coef_\<close>, \<^verbatim>\<open>coef_\<close>,
  \<^verbatim>\<open>intercept_\<close> and every other attribute are unchanged.
\<close>

theorem decision_function_reads_only:
  "snd (decision_function self X) = self \<and> snd (predict reg X) = reg"
  by (simp add: decision_function_def predict_def Let_def split: option.splits sum.splits)

section \<open>The binary fit\<close>

text \<open>
  Claim C3. In a binary fit of a model with at least two classes, the label vector handed
  to the kernel has \<open>1\<close> at the samples whose label is the second class value and \<open>-1\<close> at
  all others; the fit is the rest of \<^verbatim>\<open>_fit_binary\<close> applied to the kernel's result on
  these arguments.
\<close>

theorem fit_binary_label_vector:
  assumes "1 < length (classes self)"
      and "coef self = Some (Arr1 w)"
      and "1 < length (class_weight self)"
  shows "\<exists>args. binary_call self X y = Inr (w, intercept self, args)
           \<and> k_y args = map (\<lambda>l. if l = classes self ! 1 then 1 else - 1) y
           \<and> (\<forall>plain_sgd. fit_binary plain_sgd self X y
                  = binary_finish self w (plain_sgd w (intercept self) args))"
  using assms
  by (auto simp add: binary_call_def fit_binary_def index_def Let_def encode_labels_eq)

text \<open>
  Claim C3 on the docstring example: the labels \<open>[1, 1, 2, 2]\<close> reach the kernel as
  \<open>[-1, -1, 1, 1]\<close>.
\<close>

theorem fit_binary_label_vector_witness:
  "\<exists>args. binary_call example_classifier example_X example_y = Inr ([0, 0], Vec1 [0], args)
           \<and> k_y args = [- 1, - 1, 1, 1]
           \<and> (\<forall>plain_sgd. fit_binary plain_sgd example_classifier example_X example_y
                  = binary_finish example_classifier [0, 0] (plain_sgd [0, 0] (Vec1 [0]) args))"
  using fit_binary_label_vector [of example_classifier "[0, 0]" example_X example_y]
  by (simp add: example_classifier_def example_y_def)

text \<open>
  Claim C2 does not hold for a kernel that is a pure function. On the docstring example
  \<open>pure_kernel\<close> returns the weights \<open>[5, 5]\<close>, and the fit stores \<open>[[0, 0]]\<close>, the array it
  passed: \<^verbatim>\<open>_fit_binary\<close> binds the returned vector to a local name and then reads
  \<^verbatim>\<open>self.coef_\<close>.
\<close>

theorem fit_binary_returned_weights_counterexample:
  "returned (pure_kernel [0, 0] (Vec1 [0])
       (snd (snd (projr (binary_call example_classifier example_X example_y)))))
     = Some ([5, 5], 4)
   \<and> coef (snd (fit_binary pure_kernel example_classifier example_X example_y))
     = Some (Arr2 2 [[0, 0]])
   \<and> Some (Arr2 2 [[0, 0]]) \<noteq> Some (atleast_2d (Arr1 [5, 5]))"
  by (simp add: fit_binary_def binary_call_def binary_finish_def set_coef_def pure_kernel_def
      example_classifier_def example_X_def example_y_def index_def Let_def written_def
      encode_labels_eq)

text \<open>
  Claim C2 as amended. When the kernel returns, \<^verbatim>\<open>coef_\<close> is the array that was passed to
  the kernel, as the kernel left it, in 2-D shape (one row); \<^verbatim>\<open>intercept_\<close> is the returned
  intercept; \<^verbatim>\<open>sparse_coef_\<close> is the CSR matrix of the stored \<^verbatim>\<open>coef_\<close>. The stored row is
  the returned weight vector when the kernel has written that vector into the array.
\<close>

theorem fit_binary_stores_array_as_left:
  assumes "binary_call self X y = Inr (w, b, args)"
      and "plain_sgd w b args = Returned buf new_coef new_intercept"
  shows "fst (fit_binary plain_sgd self X y) = None
       \<and> coef (snd (fit_binary plain_sgd self X y)) = Some (atleast_2d (Arr1 (written w buf)))
       \<and> intercept (snd (fit_binary plain_sgd self X y)) = Scalar0 new_intercept
       \<and> sparse_coef (snd (fit_binary plain_sgd self X y))
           = Some (csr_matrix (atleast_2d (Arr1 (written w buf))))
       \<and> (written w buf = new_coef \<longrightarrow>
            coef (snd (fit_binary plain_sgd self X y)) = Some (atleast_2d (Arr1 new_coef)))"
  using assms
  by (auto simp add: fit_binary_def binary_finish_def set_coef_def Let_def written_length)

text \<open>
  Claim C2 as amended, on the docstring example with the kernel that updates in place:
  the returned weights \<open>[5, 5]\<close> are stored as \<open>[[5, 5]]\<close>.
\<close>

theorem fit_binary_stores_array_as_left_witness:
  "fst (fit_binary inplace_kernel example_classifier example_X example_y) = None
   \<and> coef (snd (fit_binary inplace_kernel example_classifier example_X example_y))
       = Some (Arr2 2 [[5, 5]])
   \<and> intercept (snd (fit_binary inplace_kernel example_classifier example_X example_y))
       = Scalar0 4
   \<and> sparse_coef (snd (fit_binary inplace_kernel example_classifier example_X example_y))
       = Some (csr_matrix (Arr2 2 [[5, 5]]))"
proof -
  let ?args = "snd (snd (projr (binary_call example_classifier example_X example_y)))"
  have call: "binary_call example_classifier example_X example_y = Inr ([0, 0], Vec1 [0], ?args)"
    by (simp add: binary_call_def example_classifier_def index_def Let_def)
  have ret: "inplace_kernel [0, 0] (Vec1 [0]) ?args = Returned [5, 5] [5, 5] 4"
    by (simp add: binary_call_def example_classifier_def example_y_def index_def Let_def
        inplace_kernel_def encode_labels_eq)
  have w: "written [0, 0] [5, 5] = [5, 5]"
    by (simp add: written_def)
  show ?thesis
    using fit_binary_stores_array_as_left [where plain_sgd = inplace_kernel, OF call ret] w
    by (simp add: numeral_2_eq_2)
qed

section \<open>The regressor fit\<close>

text \<open>
  Claim C7. In a regressor fit the targets reach the kernel as they are, both class
  weights passed are \<open>1\<close>, the fit is one kernel call on the model's single weight vector
  and intercept, and \<^verbatim>\<open>coef_\<close> is one-dimensional afterwards, of its length before.
\<close>

theorem fit_regressor_raw_targets:
  assumes "coef self = Some (Arr1 w)"
  shows "\<exists>args. regressor_call self X y = Inr (w, intercept self, args)
           \<and> k_y args = y \<and> k_weight_pos args = 1 \<and> k_weight_neg args = 1
           \<and> (\<forall>plain_sgd.
                fit_regressor plain_sgd self X y
                  = regressor_finish self w (plain_sgd w (intercept self) args)
              \<and> (\<exists>v. length v = length w
                    \<and> coef (snd (fit_regressor plain_sgd self X y)) = Some (Arr1 v))
              \<and> (\<forall>buf new_coef new_intercept.
                    plain_sgd w (intercept self) args = Returned buf new_coef new_intercept \<longrightarrow>
                    fst (fit_regressor plain_sgd self X y) = None
                  \<and> coef (snd (fit_regressor plain_sgd self X y)) = Some (Arr1 (written w buf))
                  \<and> intercept (snd (fit_regressor plain_sgd self X y)) = Scalar0 new_intercept))"
  using assms
  by (auto simp add: regressor_call_def fit_regressor_def regressor_finish_def set_coef_def
      Let_def written_length split: kernel_result.splits)

text \<open>Claim C7 on the example regressor, with the kernel that updates in place.\<close>

theorem fit_regressor_raw_targets_witness:
  "\<exists>args. regressor_call example_regressor example_X example_y = Inr ([0, 0], Vec1 [0], args)
           \<and> k_y args = [1, 1, 2, 2] \<and> k_weight_pos args = 1 \<and> k_weight_neg args = 1
           \<and> fst (fit_regressor inplace_kernel example_regressor example_X example_y) = None
           \<and> coef (snd (fit_regressor inplace_kernel example_regressor example_X example_y))
               = Some (Arr1 [1, 1])
           \<and> intercept (snd (fit_regressor inplace_kernel example_regressor example_X example_y))
               = Scalar0 4"
proof -
  have c: "coef example_regressor = Some (Arr1 [0, 0])"
    by (simp add: example_regressor_def)
  from fit_regressor_raw_targets [OF c, of example_X example_y]
  obtain args where a: "regressor_call example_regressor example_X example_y
        = Inr ([0, 0], intercept example_regressor, args)"
    "k_y args = example_y" "k_weight_pos args = 1" "k_weight_neg args = 1"
    and f: "\<And>buf new_coef new_intercept.
         inplace_kernel [0, 0] (intercept example_regressor) args
            = Returned buf new_coef new_intercept \<Longrightarrow>
         fst (fit_regressor inplace_kernel example_regressor example_X example_y) = None
         \<and> coef (snd (fit_regressor inplace_kernel example_regressor example_X example_y))
             = Some (Arr1 (written [0, 0] buf))
         \<and> intercept (snd (fit_regressor inplace_kernel example_regressor example_X example_y))
             = Scalar0 new_intercept"
    by blast
  have r: "inplace_kernel [0, 0] (intercept example_regressor) args = Returned [1, 1] [1, 1] 4"
    using a by (simp add: inplace_kernel_def example_y_def Let_def)
  have i: "intercept example_regressor = Vec1 [0]"
    by (simp add: example_regressor_def)
  show ?thesis
    using a f [OF r] i by (simp add: written_def example_y_def)
qed

section \<open>The one-versus-all fit\<close>

lemma ova_task_weights:
  "\<exists>a. ova_task plain_sgd self X y i c w b cw = (i, plain_sgd w b a)
       \<and> k_y a = map (\<lambda>l. if l = c then 1 else - 1) y
       \<and> k_weight_pos a = cw \<and> k_weight_neg a = 1"
  unfolding ova_task_def train_ova_classifier_def Let_def encode_labels_eq
  by (intro exI conjI, rule refl, simp_all)

lemma ova_task_coef_update [simp]:
  "ova_task plain_sgd (self\<lparr>coef := a\<rparr>) X y i c w b cw = ova_task plain_sgd self X y i c w b cw"
  by (simp add: ova_task_def)

lemma ova_task_agree:
  assumes "\<And>w b a. k_weight_neg a = 1 \<Longrightarrow> k_weight_pos a \<in> set cws \<Longrightarrow> K w b a = K' w b a"
      and "cw \<in> set cws"
  shows "ova_task K self X y i c w b cw = ova_task K' self X y i c w b cw"
  using assms by (simp add: ova_task_def train_ova_classifier_def Let_def)

lemma ova_dispatch_agree:
  assumes agree: "\<And>w b a. k_weight_neg a = 1 \<Longrightarrow> k_weight_pos a \<in> set cws \<Longrightarrow> K w b a = K' w b a"
  shows "class_weight self = cws \<Longrightarrow>
         ova_dispatch K ip self X y tasks = ova_dispatch K' ip self X y tasks"
proof (induction tasks arbitrary: self)
  case Nil
  show ?case by simp
next
  case (Cons t tasks)
  obtain i c where t: "t = (i, c)" by (cases t)
  have step: "\<And>w b cw. index (class_weight self) i = Inr cw \<Longrightarrow>
      ova_task K self X y i c w b cw = ova_task K' self X y i c w b cw"
  proof -
    fix w b cw
    assume "index (class_weight self) i = Inr cw"
    then have "cw \<in> set cws"
      using Cons.prems by (auto simp: index_def split: if_splits)
    with agree show "ova_task K self X y i c w b cw = ova_task K' self X y i c w b cw"
      by (intro ova_task_agree [where cws = cws]) auto
  qed
  show ?case
  proof (cases "coef_row (coef self) i")
    case (Inl e)
    then show ?thesis unfolding t by simp
  next
    case w: (Inr w)
    show ?thesis
    proof (cases "intercept_item (intercept self) i")
      case (Inl e)
      then show ?thesis unfolding t by (simp add: w)
    next
      case b: (Inr b)
      show ?thesis
      proof (cases "index (class_weight self) i")
        case (Inl e)
        then show ?thesis unfolding t by (simp add: w b)
      next
        case cw: (Inr cw)
        obtain i' r where tr: "ova_task K' self X y i c w b cw = (i', r)"
          by (cases "ova_task K' self X y i c w b cw")
        have "class_weight (task_effect ip self i w r) = cws"
          using Cons.prems by (simp add: task_effect_def)
        from Cons.IH [OF this]
        have ih: "ova_dispatch K ip (task_effect ip self i w r) X y tasks
                = ova_dispatch K' ip (task_effect ip self i w r) X y tasks" .
        show ?thesis
        proof (cases r)
          case (Returned buf new_coef new_intercept)
          with ih show ?thesis unfolding t
            by (simp add: w b cw step [OF cw] tr)
        next
          case (Raised e buf)
          then show ?thesis unfolding t
            by (simp add: w b cw step [OF cw] tr)
        qed
      qed
    qed
  qed
qed

section \<open>Writing the results back\<close>

lemma write_one_None_iff:
  "write_one self (i, c, b) = (None, s) \<longleftrightarrow>
     (\<exists>a' b'. assign_row (coef self) i c = Inr a' \<and> assign_item (intercept self) i b = Inr b'
        \<and> s = self\<lparr>coef := a', intercept := b'\<rparr>)"
  by (cases "assign_row (coef self) i c"; cases "assign_item (intercept self) i b")
     (auto simp add: write_one_def Let_def)

lemma assign_row_commute:
  assumes "i \<noteq> j" "assign_row A i c = Inr A1" "assign_row A1 j d = Inr A2"
  shows "\<exists>A1'. assign_row A j d = Inr A1' \<and> assign_row A1' i c = Inr A2"
proof (cases A)
  case None
  with assms show ?thesis by simp
next
  case (Some a)
  show ?thesis
  proof (cases a)
    case (Arr1 ws)
    with assms Some show ?thesis
      by (auto simp add: list_update_swap split: if_splits list.splits)
  next
    case (Arr2 n rows)
    with assms Some show ?thesis
      by (auto simp add: list_update_swap split: if_splits list.splits)
  qed
qed

lemma assign_item_commute:
  assumes "i \<noteq> j" "assign_item B i c = Inr B1" "assign_item B1 j d = Inr B2"
  shows "\<exists>B1'. assign_item B j d = Inr B1' \<and> assign_item B1' i c = Inr B2"
  using assms by (cases B) (auto simp add: list_update_swap split: if_splits)

lemma write_one_commute:
  assumes "fst x \<noteq> fst y"
      and "write_one self x = (None, s1)"
      and "write_one s1 y = (None, s2)"
  shows "\<exists>s1'. write_one self y = (None, s1') \<and> write_one s1' x = (None, s2)"
proof -
  obtain i c b where x: "x = (i, c, b)" by (cases x)
  obtain j d e where y: "y = (j, d, e)" by (cases y)
  from assms(1) have ij: "i \<noteq> j" by (simp add: x y)
  from assms(2) obtain A1 B1 where 1: "assign_row (coef self) i c = Inr A1"
      "assign_item (intercept self) i b = Inr B1" "s1 = self\<lparr>coef := A1, intercept := B1\<rparr>"
    unfolding x write_one_None_iff by blast
  from assms(3) obtain A2 B2 where 2: "assign_row (coef s1) j d = Inr A2"
      "assign_item (intercept s1) j e = Inr B2" "s2 = s1\<lparr>coef := A2, intercept := B2\<rparr>"
    unfolding y write_one_None_iff by blast
  from 1 2 have r: "assign_row A1 j d = Inr A2" and t: "assign_item B1 j e = Inr B2"
    by simp_all
  from assign_row_commute [OF ij 1(1) r] obtain A1' where
    a: "assign_row (coef self) j d = Inr A1'" "assign_row A1' i c = Inr A2" by blast
  from assign_item_commute [OF ij 1(2) t] obtain B1' where
    b: "assign_item (intercept self) j e = Inr B1'" "assign_item B1' i b = Inr B2" by blast
  let ?s = "self\<lparr>coef := A1', intercept := B1'\<rparr>"
  have "write_one self y = (None, ?s)"
    unfolding y write_one_None_iff using a b by blast
  moreover have "write_one ?s x = (None, s2)"
    unfolding x write_one_None_iff using a b 1 2 by simp
  ultimately show ?thesis by blast
qed

lemma write_back_Cons_None:
  "write_back self (t # res) = (None, s) \<longleftrightarrow>
     (\<exists>s1. write_one self t = (None, s1) \<and> write_back s1 res = (None, s))"
  by (cases "write_one self t") (auto split: option.splits)

lemma write_back_to_front:
  assumes "x \<in> set res" "distinct (map fst res)" "write_back self res = (None, s)"
  shows "write_back self (x # remove1 x res) = (None, s)"
  using assms
proof (induction res arbitrary: self)
  case Nil
  then show ?case by simp
next
  case (Cons t res)
  show ?case
  proof (cases "x = t")
    case True
    with Cons.prems show ?thesis by simp
  next
    case False
    with Cons.prems have xin: "x \<in> set res" and d: "distinct (map fst res)"
      by auto
    have ne: "fst x \<noteq> fst t"
      using xin Cons.prems(2) by (auto simp: image_iff)
    from Cons.prems(3) obtain s1 where s1: "write_one self t = (None, s1)"
      "write_back s1 res = (None, s)"
      unfolding write_back_Cons_None by blast
    from Cons.IH [OF xin d s1(2)] obtain s2 where s2: "write_one s1 x = (None, s2)"
      "write_back s2 (remove1 x res) = (None, s)"
      unfolding write_back_Cons_None by blast
    from write_one_commute [OF ne [symmetric] s1(1) s2(1)] obtain s1' where
      c: "write_one self x = (None, s1')" "write_one s1' t = (None, s2)" by blast
    have "write_back self (x # t # remove1 x res) = (None, s)"
      unfolding write_back_Cons_None using c s2(2) by blast
    with False show ?thesis by simp
  qed
qed

lemma distinct_map_fst_remove1:
  "distinct (map fst res) \<Longrightarrow> distinct (map fst (remove1 x res))"
proof (induction res)
  case Nil
  show ?case by simp
next
  case (Cons t res)
  have "fst t \<notin> fst ` set (remove1 x res)"
    using Cons.prems set_remove1_subset [of x res] by auto
  with Cons show ?case by simp
qed

lemma write_back_permuted:
  assumes "mset res' = mset res" "distinct (map fst res)" "write_back self res = (None, s)"
  shows "write_back self res' = (None, s)"
  using assms
proof (induction res' arbitrary: res self)
  case Nil
  from Nil.prems(1) have "res = []"
    by simp
  with Nil.prems(3) show ?case by simp
next
  case (Cons x xs)
  from Cons.prems(1) have xin: "x \<in> set res"
    by (metis list.set_intros(1) set_mset_mset)
  from Cons.prems(1) have m: "mset xs = mset (remove1 x res)"
    by (metis add_mset_remove_trivial mset.simps(2) mset_remove1)
  have d: "distinct (map fst (remove1 x res))"
    using Cons.prems(2) by (rule distinct_map_fst_remove1)
  from write_back_to_front [OF xin Cons.prems(2,3)] obtain s1 where
    s1: "write_one self x = (None, s1)" "write_back s1 (remove1 x res) = (None, s)"
    unfolding write_back_Cons_None by blast
  from Cons.IH [OF m d s1(2)] s1(1) show ?case
    unfolding write_back_Cons_None by blast
qed


lemma ova_task_fst [simp]: "fst (ova_task plain_sgd self X y i c w b cw) = i"
  by (simp add: ova_task_def train_ova_classifier_def Let_def)

lemma ova_dispatch_Cons_Inr:
  assumes "ova_dispatch K ip self X y ((i, c) # tasks) = (Inr res, s)"
  obtains w b cw buf new_coef new_intercept res1 where
    "coef_row (coef self) i = Inr w"
    "intercept_item (intercept self) i = Inr b"
    "index (class_weight self) i = Inr cw"
    "ova_task K self X y i c w b cw = (i, Returned buf new_coef new_intercept)"
    "ova_dispatch K ip (task_effect ip self i w (Returned buf new_coef new_intercept)) X y tasks
       = (Inr res1, s)"
    "res = (i, new_coef, new_intercept) # res1"
proof (cases "coef_row (coef self) i")
  case (Inl e)
  with assms show ?thesis by simp
next
  case w: (Inr w)
  show ?thesis
  proof (cases "intercept_item (intercept self) i")
    case (Inl e)
    with assms w show ?thesis by simp
  next
    case b: (Inr b)
    show ?thesis
    proof (cases "index (class_weight self) i")
      case (Inl e)
      with assms w b show ?thesis by simp
    next
      case cw: (Inr cw)
      obtain i' r where tr: "ova_task K self X y i c w b cw = (i', r)"
        by (cases "ova_task K self X y i c w b cw")
      have i': "i' = i"
        using ova_task_fst [of K self X y i c w b cw] tr by simp
      show ?thesis
      proof (cases r)
        case (Raised e buf)
        with assms w b cw tr show ?thesis by simp
      next
        case (Returned buf new_coef new_intercept)
        obtain q s' where q: "ova_dispatch K ip
            (task_effect ip self i w (Returned buf new_coef new_intercept)) X y tasks = (q, s')"
          by (cases "ova_dispatch K ip
            (task_effect ip self i w (Returned buf new_coef new_intercept)) X y tasks")
        show ?thesis
        proof (cases q)
          case (Inl e)
          with assms w b cw tr Returned q show ?thesis by simp
        next
          case (Inr res1)
          with assms w b cw tr Returned q i' have "s' = s" "res = (i, new_coef, new_intercept) # res1"
            by simp_all
          with that [OF w b cw _ _ this(2)] tr Returned q Inr i' show ?thesis by simp
        qed
      qed
    qed
  qed
qed

lemma ova_dispatch_indices:
  "ova_dispatch K ip self X y tasks = (Inr res, s) \<Longrightarrow> map fst res = map fst tasks"
proof (induction tasks arbitrary: self res)
  case Nil
  then show ?case by simp
next
  case (Cons t tasks)
  obtain i c where t: "t = (i, c)" by (cases t)
  from Cons.prems [unfolded t] show ?case
  proof (rule ova_dispatch_Cons_Inr)
    fix w b cw buf new_coef new_intercept res1
    assume "ova_dispatch K ip (task_effect ip self i w (Returned buf new_coef new_intercept)) X y tasks
       = (Inr res1, s)" and "res = (i, new_coef, new_intercept) # res1"
    with Cons.IH show ?thesis by (simp add: t)
  qed
qed

section \<open>A sub-fit that fails\<close>

lemma ova_dispatch_Cons_state:
  assumes "ova_dispatch K ip self X y ((i, c) # tasks) = (r, s)"
  shows "s = self
       \<or> (\<exists>w b a. coef_row (coef self) i = Inr w
            \<and> (s = task_effect ip self i w (K w b a)
               \<or> (\<exists>r'. ova_dispatch K ip (task_effect ip self i w (K w b a)) X y tasks = (r', s))))"
proof (cases "coef_row (coef self) i")
  case (Inl e)
  with assms show ?thesis by simp
next
  case w: (Inr w)
  show ?thesis
  proof (cases "intercept_item (intercept self) i")
    case (Inl e)
    with assms w show ?thesis by simp
  next
    case b: (Inr b)
    show ?thesis
    proof (cases "index (class_weight self) i")
      case (Inl e)
      with assms w b show ?thesis by simp
    next
      case cw: (Inr cw)
      obtain a where tr: "ova_task K self X y i c w b cw = (i, K w b a)"
        using ova_task_weights [of K self X y i c w b cw] by blast
      show ?thesis
      proof (cases "K w b a")
        case (Raised e buf)
        with assms w b cw tr have "s = task_effect ip self i w (K w b a)" by simp
        with w show ?thesis by blast
      next
        case (Returned buf new_coef new_intercept)
        obtain q s' where q: "ova_dispatch K ip (task_effect ip self i w (K w b a)) X y tasks = (q, s')"
          by (cases "ova_dispatch K ip (task_effect ip self i w (K w b a)) X y tasks")
        have "s' = s"
          using assms w b cw tr Returned q by (cases q) simp_all
        with q w show ?thesis by blast
      qed
    qed
  qed
qed









section \<open>The sub-fits of a multiclass fit\<close>

lemma task_effect_coef:
  assumes "coef s = Some (Arr2 n rws)"
  shows "\<exists>rws'. coef (task_effect ip s i w r) = Some (Arr2 n rws')
           \<and> length rws' = length rws
           \<and> (\<forall>j. j \<noteq> i \<longrightarrow> rws' ! j = rws ! j)
           \<and> (length w = n \<and> list_all (\<lambda>r. length r = n) rws \<longrightarrow>
                list_all (\<lambda>r. length r = n) rws')"
proof (cases ip)
  case False
  with assms show ?thesis by (simp add: task_effect_def)
next
  case True
  have "list_all (\<lambda>r. length r = n) (rws[i := written_by w r])"
    if "length w = n" "list_all (\<lambda>r. length r = n) rws"
  proof -
    have "length (written_by w r) = n"
      using that(1) by (cases r) (simp_all add: written_length)
    with that(2) show ?thesis
      by (auto simp: list_all_iff dest: set_update_subset_insert [THEN subsetD])
  qed
  with True assms show ?thesis
    by (simp add: task_effect_def)
qed

lemma ova_dispatch_results:
  assumes b: "intercept self = Vec1 bs"
  shows "coef s = Some (Arr2 n rws) \<Longrightarrow> length rws = length rows \<Longrightarrow>
         s = self\<lparr>coef := coef s\<rparr> \<Longrightarrow> distinct (map fst tasks) \<Longrightarrow>
         (\<forall>t \<in> set tasks. fst t < length rows \<and> fst t < length bs
             \<and> fst t < length (class_weight self) \<and> rws ! fst t = rows ! fst t
             \<and> (\<exists>buf w' b'. snd (ova_task K self X y (fst t) (snd t) (rows ! fst t)
                    (Scalar0 (bs ! fst t)) (class_weight self ! fst t)) = Returned buf w' b')) \<Longrightarrow>
         \<exists>s' rws'. ova_dispatch K ip s X y tasks
           = (Inr (map (\<lambda>t. (fst t,
                   the (returned (snd (ova_task K self X y (fst t) (snd t) (rows ! fst t)
                    (Scalar0 (bs ! fst t)) (class_weight self ! fst t)))))) tasks), s')
           \<and> s' = self\<lparr>coef := coef s'\<rparr> \<and> coef s' = Some (Arr2 n rws')
           \<and> length rws' = length rows"
proof (induction tasks arbitrary: s rws)
  case Nil
  then show ?case by simp
next
  case (Cons t tasks)
  obtain i c where t: "t = (i, c)" by (cases t)
  let ?w = "rows ! i" and ?b = "Scalar0 (bs ! i)" and ?cw = "class_weight self ! i"
  from Cons.prems(5) t have i: "i < length rows" "i < length bs" "i < length (class_weight self)"
    "rws ! i = rows ! i" by auto
  from Cons.prems(5) t obtain buf w' b' where
    r: "snd (ova_task K self X y i c ?w ?b ?cw) = Returned buf w' b'" by auto
  have s_eq: "ova_task K s X y i c ?w ?b ?cw = ova_task K self X y i c ?w ?b ?cw"
    by (subst Cons.prems(3)) simp
  have tr: "ova_task K s X y i c ?w ?b ?cw = (i, Returned buf w' b')"
    using r ova_task_fst [of K self X y i c ?w ?b ?cw] s_eq
    by (metis prod.collapse)
  have cr: "coef_row (coef s) i = Inr ?w"
    using Cons.prems(1,2) i by (simp add: index_def)
  have ii: "intercept_item (intercept s) i = Inr ?b"
    using b i by (subst Cons.prems(3)) (simp add: index_def)
  have ci: "index (class_weight s) i = Inr ?cw"
    using i by (subst Cons.prems(3)) (simp add: index_def)
  let ?s1 = "task_effect ip s i ?w (Returned buf w' b')"
  from task_effect_coef [OF Cons.prems(1), of ip i ?w "Returned buf w' b'"]
  obtain rws1 where 1: "coef ?s1 = Some (Arr2 n rws1)" "length rws1 = length rws"
    "\<forall>j. j \<noteq> i \<longrightarrow> rws1 ! j = rws ! j" by blast
  have f1: "?s1 = self\<lparr>coef := coef ?s1\<rparr>"
    by (subst (1) Cons.prems(3)) (simp add: task_effect_def)
  have d1: "distinct (map fst tasks)" and ni: "i \<notin> fst ` set tasks"
    using Cons.prems(4) t by auto
  have p1: "\<forall>t \<in> set tasks. fst t < length rows \<and> fst t < length bs
             \<and> fst t < length (class_weight self) \<and> rws1 ! fst t = rows ! fst t
             \<and> (\<exists>buf w' b'. snd (ova_task K self X y (fst t) (snd t) (rows ! fst t)
                    (Scalar0 (bs ! fst t)) (class_weight self ! fst t)) = Returned buf w' b')"
  proof
    fix u assume u: "u \<in> set tasks"
    with ni have "fst u \<noteq> i" by auto
    with 1(3) have "rws1 ! fst u = rws ! fst u" by simp
    with Cons.prems(5) u show "fst u < length rows \<and> fst u < length bs
             \<and> fst u < length (class_weight self) \<and> rws1 ! fst u = rows ! fst u
             \<and> (\<exists>buf w' b'. snd (ova_task K self X y (fst u) (snd u) (rows ! fst u)
                    (Scalar0 (bs ! fst u)) (class_weight self ! fst u)) = Returned buf w' b')"
      by simp
  qed
  from Cons.IH [OF 1(1) _ f1 d1 p1] 1(2) Cons.prems(2)
  obtain s' rws' where ih: "ova_dispatch K ip ?s1 X y tasks
           = (Inr (map (\<lambda>t. (fst t,
                   the (returned (snd (ova_task K self X y (fst t) (snd t) (rows ! fst t)
                    (Scalar0 (bs ! fst t)) (class_weight self ! fst t)))))) tasks), s')"
      "s' = self\<lparr>coef := coef s'\<rparr>" "coef s' = Some (Arr2 n rws')" "length rws' = length rows"
    by auto
  have "ova_dispatch K ip s X y ((i, c) # tasks)
      = (Inr ((i, w', b') # map (\<lambda>t. (fst t,
                   the (returned (snd (ova_task K self X y (fst t) (snd t) (rows ! fst t)
                    (Scalar0 (bs ! fst t)) (class_weight self ! fst t)))))) tasks), s')"
    by (simp add: cr ii ci tr ih(1))
  with ih(2,3,4) r show ?case
    unfolding t by simp
qed


lemma write_back_result:
  "coef s = Some (Arr2 n rws) \<Longrightarrow> intercept s = Vec1 bs \<Longrightarrow> distinct (map fst res) \<Longrightarrow>
   (\<forall>t \<in> set res. fst t < length rws \<and> fst t < length bs \<and> length (fst (snd t)) = n) \<Longrightarrow>
   \<exists>rws' bs'. write_back s res = (None, s\<lparr>coef := Some (Arr2 n rws'), intercept := Vec1 bs'\<rparr>)
      \<and> length rws' = length rws \<and> length bs' = length bs
      \<and> (\<forall>t \<in> set res. rws' ! fst t = fst (snd t) \<and> bs' ! fst t = snd (snd t))
      \<and> (\<forall>j. j \<notin> fst ` set res \<longrightarrow> rws' ! j = rws ! j \<and> bs' ! j = bs ! j)"
proof (induction res arbitrary: s rws bs)
  case Nil
  have "s\<lparr>coef := Some (Arr2 n rws), intercept := Vec1 bs\<rparr> = s"
    using Nil(1) [symmetric] Nil(2) [symmetric] by simp
  then show ?case
    by (intro exI [of _ rws] exI [of _ bs]) simp
next
  case (Cons t res)
  obtain i w b where t: "t = (i, w, b)" by (cases t)
  from Cons.prems(4) t have i: "i < length rws" "i < length bs" "length w = n" by auto
  let ?s1 = "s\<lparr>coef := Some (Arr2 n (rws[i := w])), intercept := Vec1 (bs[i := b])\<rparr>"
  have w1: "write_one s t = (None, ?s1)"
    unfolding t write_one_None_iff using Cons.prems(1,2) i by simp
  have d: "distinct (map fst res)" and ni: "i \<notin> fst ` set res"
    using Cons.prems(3) t by auto
  have p: "\<forall>t \<in> set res. fst t < length (rws[i := w]) \<and> fst t < length (bs[i := b])
             \<and> length (fst (snd t)) = n"
    using Cons.prems(4) by simp
  from Cons.IH [of ?s1 "rws[i := w]" "bs[i := b]", OF _ _ d p]
  obtain rws' bs' where ih:
    "write_back ?s1 res = (None, ?s1\<lparr>coef := Some (Arr2 n rws'), intercept := Vec1 bs'\<rparr>)"
    "length rws' = length rws" "length bs' = length bs"
    "\<forall>t \<in> set res. rws' ! fst t = fst (snd t) \<and> bs' ! fst t = snd (snd t)"
    "\<forall>j. j \<notin> fst ` set res \<longrightarrow> rws' ! j = (rws[i := w]) ! j \<and> bs' ! j = (bs[i := b]) ! j"
    by auto
  have wb: "write_back s (t # res)
      = (None, s\<lparr>coef := Some (Arr2 n rws'), intercept := Vec1 bs'\<rparr>)"
    by (simp add: w1 ih(1))
  have here: "rws' ! i = w \<and> bs' ! i = b"
    using ih(5) ni i by simp
  have rest: "\<forall>j. j \<notin> fst ` set (t # res) \<longrightarrow> rws' ! j = rws ! j \<and> bs' ! j = bs ! j"
    using ih(5) t by auto
  from wb ih(2,3,4) here rest show ?case
    unfolding t by (intro exI [of _ rws'] exI [of _ bs']) simp
qed

lemma fit_multiclass_rows:
  assumes c: "coef self = Some (Arr2 n rows)"
      and b: "intercept self = Vec1 bs"
      and lens: "length rows = length (classes self)" "length bs = length (classes self)"
                "length (classes self) \<le> length (class_weight self)"
      and ret: "\<forall>i < length (classes self). \<exists>buf w' b'.
                  snd (ova_task plain_sgd self (as_csr X) y i (classes self ! i) (rows ! i)
                         (Scalar0 (bs ! i)) (class_weight self ! i)) = Returned buf w' b'
                  \<and> length w' = n"
      and i: "i < length (classes self)"
  shows "\<exists>buf w' b'.
           snd (ova_task plain_sgd self (as_csr X) y i (classes self ! i) (rows ! i)
               (Scalar0 (bs ! i)) (class_weight self ! i)) = Returned buf w' b'
         \<and> fst (fit_multiclass plain_sgd in_process self X y) = None
         \<and> coef_row (coef (snd (fit_multiclass plain_sgd in_process self X y))) i = Inr w'
         \<and> intercept_item (intercept (snd (fit_multiclass plain_sgd in_process self X y))) i
             = Inr (Scalar0 b')"
proof -
  let ?X = "as_csr X"
  let ?tasks = "enumerate 0 (classes self)"
  let ?R = "\<lambda>t. snd (ova_task plain_sgd self ?X y (fst t) (snd t) (rows ! fst t)
                    (Scalar0 (bs ! fst t)) (class_weight self ! fst t))"
  let ?res = "map (\<lambda>t. (fst t, the (returned (?R t)))) ?tasks"
  have tasks: "\<And>t. t \<in> set ?tasks \<Longrightarrow> fst t < length (classes self) \<and> snd t = classes self ! fst t"
    by (auto simp: in_set_enumerate_eq)
  have dist: "distinct (map fst ?tasks)"
    by (simp add: map_fst_enumerate)
  have pre: "\<forall>t \<in> set ?tasks. fst t < length rows \<and> fst t < length bs
             \<and> fst t < length (class_weight self) \<and> rows ! fst t = rows ! fst t
             \<and> (\<exists>buf w' b'. ?R t = Returned buf w' b')"
  proof
    fix t assume t: "t \<in> set ?tasks"
    from tasks [OF t] have lt: "fst t < length (classes self)" and st: "snd t = classes self ! fst t"
      by simp_all
    from ret lt st have "\<exists>buf w' b'. ?R t = Returned buf w' b'" by auto
    with lt lens show "fst t < length rows \<and> fst t < length bs
             \<and> fst t < length (class_weight self) \<and> rows ! fst t = rows ! fst t
             \<and> (\<exists>buf w' b'. ?R t = Returned buf w' b')" by simp
  qed
  have self_eq: "self = self\<lparr>coef := coef self\<rparr>" by simp
  from ova_dispatch_results [OF b c refl self_eq dist pre, of in_process]
  obtain s' rws' where d: "ova_dispatch plain_sgd in_process self ?X y ?tasks = (Inr ?res, s')"
    "s' = self\<lparr>coef := coef s'\<rparr>" "coef s' = Some (Arr2 n rws')" "length rws' = length rows"
    by blast
  have bs': "intercept s' = Vec1 bs"
    by (subst d(2)) (simp add: b)
  have dres: "distinct (map fst ?res)"
    using dist by (simp add: comp_def)
  have pres: "\<forall>t \<in> set ?res. fst t < length rws' \<and> fst t < length bs \<and> length (fst (snd t)) = n"
  proof
    fix u assume "u \<in> set ?res"
    then obtain t where t: "t \<in> set ?tasks" and u: "u = (fst t, the (returned (?R t)))"
      by auto
    from tasks [OF t] have lt: "fst t < length (classes self)" and st: "snd t = classes self ! fst t"
      by simp_all
    from ret lt st obtain buf w' b' where "?R t = Returned buf w' b'" "length w' = n" by auto
    with u lt lens d(4) show "fst u < length rws' \<and> fst u < length bs \<and> length (fst (snd u)) = n"
      by simp
  qed
  from write_back_result [OF d(3) bs' dres pres]
  obtain rws2 bs2 where wb:
    "write_back s' ?res = (None, s'\<lparr>coef := Some (Arr2 n rws2), intercept := Vec1 bs2\<rparr>)"
    "length rws2 = length rws'" "length bs2 = length bs"
    "\<forall>t \<in> set ?res. rws2 ! fst t = fst (snd t) \<and> bs2 ! fst t = snd (snd t)"
    by blast
  have fit: "fit_multiclass plain_sgd in_process self X y
      = (None, set_coef (s'\<lparr>coef := Some (Arr2 n rws2), intercept := Vec1 bs2\<rparr>)
                  (Some (Arr2 n rws2)))"
    by (simp add: fit_multiclass_def d(1) wb(1) Let_def)
  from ret i obtain buf w' b' where
    r: "snd (ova_task plain_sgd self ?X y i (classes self ! i) (rows ! i)
               (Scalar0 (bs ! i)) (class_weight self ! i)) = Returned buf w' b'" by blast
  have mem: "(i, classes self ! i) \<in> set ?tasks"
    using i by (simp add: in_set_enumerate_eq)
  have inres: "(i, w', b') \<in> set ?res"
    using mem r by (force simp: image_iff)
  have "rws2 ! fst (i, w', b') = fst (snd (i, w', b'))
      \<and> bs2 ! fst (i, w', b') = snd (snd (i, w', b'))"
    using wb(4) inres by (rule bspec)
  then have at: "rws2 ! i = w'" "bs2 ! i = b'" by simp_all
  have il: "i < length rws2" "i < length bs2"
    using i lens wb(2,3) d(4) by simp_all
  have "coef_row (coef (snd (fit_multiclass plain_sgd in_process self X y))) i = Inr w'"
    unfolding fit using il at by (simp add: set_coef_def index_def)
  moreover have "intercept_item (intercept (snd (fit_multiclass plain_sgd in_process self X y))) i
             = Inr (Scalar0 b')"
    unfolding fit using il at by (simp add: set_coef_def index_def)
  moreover have "fst (fit_multiclass plain_sgd in_process self X y) = None"
    unfolding fit by simp
  ultimately show ?thesis
    using r by blast
qed

text \<open>
  Claim C4. Take a model with \<open>K\<close> classes, a \<open>K\<close>-row \<^verbatim>\<open>coef_\<close> and a \<open>K\<close>-entry
  \<^verbatim>\<open>intercept_\<close>, and a kernel that returns a weight vector of the row length for each
  class. The sub-fit of class index \<open>i\<close> with label \<open>c = classes[i]\<close> calls the kernel on
  row \<open>i\<close> of \<^verbatim>\<open>coef_\<close> and entry \<open>i\<close> of \<^verbatim>\<open>intercept_\<close> as they are when the fit starts, with
  the label vector that is \<open>1\<close> where the label is \<open>c\<close> and \<open>-1\<close> elsewhere; the fit returns
  normally, and row \<open>i\<close> of \<^verbatim>\<open>coef_\<close> and entry \<open>i\<close> of \<^verbatim>\<open>intercept_\<close> are then what that
  call returned. This holds for sub-fits run in the calling process and in workers.
\<close>

theorem fit_multiclass_sub_fits:
  assumes c: "coef self = Some (Arr2 n rows)"
      and b: "intercept self = Vec1 bs"
      and lens: "length rows = length (classes self)" "length bs = length (classes self)"
                "length (classes self) \<le> length (class_weight self)"
      and ret: "\<forall>i < length (classes self). \<exists>buf w' b'.
                  snd (ova_task plain_sgd self (as_csr X) y i (classes self ! i) (rows ! i)
                         (Scalar0 (bs ! i)) (class_weight self ! i)) = Returned buf w' b'
                  \<and> length w' = n"
      and i: "i < length (classes self)"
  shows "\<exists>a buf w' b'.
           ova_task plain_sgd self (as_csr X) y i (classes self ! i) (rows ! i)
               (Scalar0 (bs ! i)) (class_weight self ! i)
             = (i, plain_sgd (rows ! i) (Scalar0 (bs ! i)) a)
         \<and> k_y a = map (\<lambda>l. if l = classes self ! i then 1 else - 1) y
         \<and> plain_sgd (rows ! i) (Scalar0 (bs ! i)) a = Returned buf w' b'
         \<and> fst (fit_multiclass plain_sgd in_process self X y) = None
         \<and> coef_row (coef (snd (fit_multiclass plain_sgd in_process self X y))) i = Inr w'
         \<and> intercept_item (intercept (snd (fit_multiclass plain_sgd in_process self X y))) i
             = Inr (Scalar0 b')"
proof -
  from ova_task_weights [of plain_sgd self "as_csr X" y i "classes self ! i" "rows ! i"
      "Scalar0 (bs ! i)" "class_weight self ! i"]
  obtain a where a: "ova_task plain_sgd self (as_csr X) y i (classes self ! i) (rows ! i)
               (Scalar0 (bs ! i)) (class_weight self ! i)
             = (i, plain_sgd (rows ! i) (Scalar0 (bs ! i)) a)"
     "k_y a = map (\<lambda>l. if l = classes self ! i then 1 else - 1) y"
    by blast
  from fit_multiclass_rows [OF c b lens ret i, of in_process] a show ?thesis
    by auto
qed


text \<open>
  Claim C4 on the three-class example, class index \<open>1\<close>: the label vector is
  \<open>[-1, 1, -1, -1]\<close>, the warm start is the zero row, and the returned weights \<open>[5, 5]\<close> and
  intercept \<open>4\<close> end up at index \<open>1\<close>.
\<close>

theorem fit_multiclass_sub_fits_witness:
  "\<exists>a. ova_task inplace_kernel example_multiclass (as_csr example_X) example_y3 1 1 [0, 0]
           (Scalar0 0) 5 = (1, inplace_kernel [0, 0] (Scalar0 0) a)
       \<and> k_y a = [- 1, 1, - 1, - 1]
       \<and> inplace_kernel [0, 0] (Scalar0 0) a = Returned [5, 5] [5, 5] 4
       \<and> fst (fit_multiclass inplace_kernel True example_multiclass example_X example_y3) = None
       \<and> coef_row (coef (snd (fit_multiclass inplace_kernel True example_multiclass example_X
             example_y3))) 1 = Inr [5, 5]
       \<and> intercept_item (intercept (snd (fit_multiclass inplace_kernel True example_multiclass
             example_X example_y3))) 1 = Inr (Scalar0 4)"
proof -
  let ?rows = "[[0, 0], [0, 0], [0, 0]] :: real list list"
  let ?bs = "[0, 0, 0] :: real list"
  have c: "coef example_multiclass = Some (Arr2 2 ?rows)"
    and b: "intercept example_multiclass = Vec1 ?bs"
    and l: "length ?rows = length (classes example_multiclass)"
           "length ?bs = length (classes example_multiclass)"
           "length (classes example_multiclass) \<le> length (class_weight example_multiclass)"
    and i: "1 < length (classes example_multiclass)"
    by (simp_all add: example_multiclass_def)
  have k: "length (classes example_multiclass) = Suc (Suc (Suc 0))"
    by (simp add: example_multiclass_def)
  have ret: "\<forall>i < length (classes example_multiclass). \<exists>buf w' b'.
                  snd (ova_task inplace_kernel example_multiclass (as_csr example_X) example_y3 i
                         (classes example_multiclass ! i) (?rows ! i)
                         (Scalar0 (?bs ! i)) (class_weight example_multiclass ! i))
                    = Returned buf w' b'
                  \<and> length w' = 2"
    unfolding k
    by (simp add: less_Suc_eq ova_task_def train_ova_classifier_def inplace_kernel_def Let_def)
  from fit_multiclass_sub_fits [OF c b l ret i, of True]
  obtain a buf w' b' where r:
    "ova_task inplace_kernel example_multiclass (as_csr example_X) example_y3 1
        (classes example_multiclass ! 1) (?rows ! 1) (Scalar0 (?bs ! 1))
        (class_weight example_multiclass ! 1)
      = (1, inplace_kernel (?rows ! 1) (Scalar0 (?bs ! 1)) a)"
    "k_y a = map (\<lambda>l. if l = classes example_multiclass ! 1 then 1 else - 1) example_y3"
    "inplace_kernel (?rows ! 1) (Scalar0 (?bs ! 1)) a = Returned buf w' b'"
    "fst (fit_multiclass inplace_kernel True example_multiclass example_X example_y3) = None"
    "coef_row (coef (snd (fit_multiclass inplace_kernel True example_multiclass example_X
             example_y3))) 1 = Inr w'"
    "intercept_item (intercept (snd (fit_multiclass inplace_kernel True example_multiclass
             example_X example_y3))) 1 = Inr (Scalar0 b')"
    by blast
  have cl: "classes example_multiclass ! 1 = 1" "class_weight example_multiclass ! 1 = 5"
    "classes example_multiclass ! Suc 0 = 1" "class_weight example_multiclass ! Suc 0 = 5"
    by (simp_all add: example_multiclass_def)
  have ky: "k_y a = [- 1, 1, - 1, - 1]"
    using r(2) by (simp add: cl example_y3_def)
  have kw: "k_weight_pos a = 5"
    using r(1) ova_task_weights [of inplace_kernel example_multiclass "as_csr example_X"
        example_y3 1 1 "[0, 0]" "Scalar0 0" 5]
    by (simp add: cl ova_task_def train_ova_classifier_def inplace_kernel_def Let_def)
  have v: "inplace_kernel [0, 0] (Scalar0 0) a = Returned [5, 5] [5, 5] 4"
    by (simp add: inplace_kernel_def Let_def ky kw)
  with r(3) have "w' = [5, 5]" "b' = 4" by auto
  with r ky v show ?thesis
    by (intro exI [of _ a]) (simp add: cl)
qed

section \<open>The order of the write-back\<close>

lemma ova_dispatch_shape:
  "coef self = Some (Arr2 n rws) \<Longrightarrow> ova_dispatch K ip self X y tasks = (r, s) \<Longrightarrow>
   \<exists>rws'. coef s = Some (Arr2 n rws') \<and> length rws' = length rws"
proof (induction tasks arbitrary: self rws r)
  case Nil
  then show ?case by auto
next
  case (Cons t tasks)
  obtain i c where t: "t = (i, c)" by (cases t)
  from ova_dispatch_Cons_state [OF Cons.prems(2) [unfolded t]]
  consider "s = self"
    | w b a where "s = task_effect ip self i w (K w b a)"
    | w b a r' where "ova_dispatch K ip (task_effect ip self i w (K w b a)) X y tasks = (r', s)"
    by blast
  then show ?case
  proof cases
    case 1
    with Cons.prems show ?thesis by blast
  next
    case 2
    with task_effect_coef [OF Cons.prems(1), of ip i w "K w b a"] show ?thesis by blast
  next
    case 3
    from task_effect_coef [OF Cons.prems(1), of ip i w "K w b a"] obtain rws1 where
      1: "coef (task_effect ip self i w (K w b a)) = Some (Arr2 n rws1)"
         "length rws1 = length rws" by blast
    from Cons.IH [OF 1(1) 3] 1(2) show ?thesis by auto
  qed
qed

lemma coef_row_Inr_shape: "coef_row a i = Inr w \<Longrightarrow> \<exists>n rws. a = Some (Arr2 n rws)"
proof (cases a)
  case None
  then show "coef_row a i = Inr w \<Longrightarrow> \<exists>n rws. a = Some (Arr2 n rws)" by simp
next
  case (Some arr)
  then show "coef_row a i = Inr w \<Longrightarrow> \<exists>n rws. a = Some (Arr2 n rws)"
    by (cases arr) (simp_all split: if_splits)
qed

lemma ova_dispatch_results_shape:
  assumes "ova_dispatch K ip self X y tasks = (Inr res, s)" "res \<noteq> []"
  shows "\<exists>n rws. coef s = Some (Arr2 n rws)"
proof (cases tasks)
  case Nil
  with assms show ?thesis by simp
next
  case (Cons t tasks')
  obtain i c where t: "t = (i, c)" by (cases t)
  from assms(1) [unfolded Cons t] obtain w where "coef_row (coef self) i = Inr w"
    by (rule ova_dispatch_Cons_Inr)
  from coef_row_Inr_shape [OF this] obtain n rws where "coef self = Some (Arr2 n rws)"
    by blast
  from ova_dispatch_shape [OF this assms(1)] show ?thesis by blast
qed

lemma write_back_snoc:
  "write_back s (xs @ [t]) = (None, s') \<longleftrightarrow>
     (\<exists>s1. write_back s xs = (None, s1) \<and> write_one s1 t = (None, s'))"
proof (induction xs arbitrary: s)
  case Nil
  have "write_back s [t] = (None, s') \<longleftrightarrow> write_one s t = (None, s')"
    unfolding write_back_Cons_None by simp
  then show ?case by simp
next
  case (Cons x xs)
  show ?case
    unfolding append_Cons write_back_Cons_None Cons.IH by blast
qed

lemma assign_row_shape:
  "assign_row (Some (Arr2 n rws)) i v = Inr a \<Longrightarrow> \<exists>rws'. a = Some (Arr2 n rws')"
  by (auto split: if_splits list.splits)

lemma write_back_shape:
  "coef s = Some (Arr2 n rws) \<Longrightarrow> write_back s res = (None, s') \<Longrightarrow>
   \<exists>rws'. coef s' = Some (Arr2 n rws')"
proof (induction res arbitrary: s rws)
  case Nil
  then show ?case by auto
next
  case (Cons t res)
  obtain i v b where t: "t = (i, v, b)" by (cases t)
  from Cons.prems(2) obtain s1 where s1: "write_one s t = (None, s1)" "write_back s1 res = (None, s')"
    unfolding write_back_Cons_None by blast
  from s1(1) obtain a' b' where a: "assign_row (coef s) i v = Inr a'"
      "s1 = s\<lparr>coef := a', intercept := b'\<rparr>"
    unfolding t write_one_None_iff by blast
  from assign_row_shape [OF a(1) [unfolded Cons.prems(1)]] obtain rws1 where
    "a' = Some (Arr2 n rws1)" by blast
  with a(2) have "coef s1 = Some (Arr2 n rws1)" by simp
  from Cons.IH [OF this s1(2)] show ?case .
qed

lemma write_one_own_index:
  assumes "write_one s (i, w, b) = (None, s')" "coef s = Some (Arr2 n rws)"
  shows "coef_row (coef s') i = Inr (if length w = n then w else replicate n (hd w))
       \<and> intercept_item (intercept s') i = Inr (Scalar0 b)"
proof -
  from assms(1) obtain a' b' where a: "assign_row (coef s) i w = Inr a'"
      and b: "assign_item (intercept s) i b = Inr b'"
      and s': "s' = s\<lparr>coef := a', intercept := b'\<rparr>"
    unfolding write_one_None_iff by blast
  from a have "coef_row a' i = Inr (if length w = n then w else replicate n (hd w))"
    unfolding assms(2) by (auto simp: index_def split: if_splits list.splits)
  moreover from b have "intercept_item b' i = Inr (Scalar0 b)"
    by (cases "intercept s") (auto simp: index_def split: if_splits)
  ultimately show ?thesis
    by (simp add: s')
qed

lemma write_back_own_index:
  assumes d: "distinct (map fst res)" and wb: "write_back s res = (None, s')"
      and t: "(i, w, b) \<in> set res" and c: "coef s = Some (Arr2 n rws)"
  shows "coef_row (coef s') i = Inr (if length w = n then w else replicate n (hd w))
       \<and> intercept_item (intercept s') i = Inr (Scalar0 b)"
proof -
  have m: "mset (remove1 (i, w, b) res @ [(i, w, b)]) = mset res"
    using t by simp
  from write_back_permuted [OF m d wb] obtain s1 where
    s1: "write_back s (remove1 (i, w, b) res) = (None, s1)" "write_one s1 (i, w, b) = (None, s')"
    unfolding write_back_snoc by blast
  from write_back_shape [OF c s1(1)] obtain rws1 where "coef s1 = Some (Arr2 n rws1)"
    by blast
  from write_one_own_index [OF s1(2) this] show ?thesis .
qed

text \<open>
  Claim C5. The results of a multiclass dispatch carry the class indices \<open>0, ..., K - 1\<close>,
  each once. Writing them back in any other order succeeds exactly when writing them back
  in the order of the tasks does. When it succeeds, the write-back in the other order
  leaves the same model, the fit ends with the model that this write-back leaves, and each
  result \<open>(i, w, b)\<close> is found at its own class index: row \<open>i\<close> of \<^verbatim>\<open>coef_\<close> is \<open>w\<close> (a
  vector of length one broadcast to the row length \<open>n\<close>, as NumPy does, when \<open>n\<close> is not
  one) and entry \<open>i\<close> of \<^verbatim>\<open>intercept_\<close> is \<open>b\<close>.
\<close>

theorem write_back_order_independent:
  assumes "ova_dispatch plain_sgd in_process self (as_csr X) y (enumerate 0 (classes self))
             = (Inr res, s)"
      and "mset res' = mset res"
  shows "(fst (write_back s res') = None \<longleftrightarrow> fst (write_back s res) = None)
       \<and> (fst (write_back s res) = None \<longrightarrow>
            write_back s res' = write_back s res
          \<and> fit_multiclass plain_sgd in_process self X y
              = (None, set_coef (snd (write_back s res')) (coef (snd (write_back s res'))))
          \<and> (\<forall>t \<in> set res. \<exists>n rws. coef s = Some (Arr2 n rws)
               \<and> coef_row (coef (snd (write_back s res'))) (fst t)
                   = Inr (if length (fst (snd t)) = n then fst (snd t)
                          else replicate n (hd (fst (snd t))))
               \<and> intercept_item (intercept (snd (write_back s res'))) (fst t)
                   = Inr (Scalar0 (snd (snd t)))))"
proof -
  have "map fst res = [0..<length (classes self)]"
    using ova_dispatch_indices [OF assms(1)] by (simp add: map_fst_enumerate)
  then have d: "distinct (map fst res)" by simp
  have d': "distinct (map fst res')"
    using d assms(2) by (metis distinct_map mset_eq_setD mset_map mset_eq_imp_distinct_iff)
  have 1: "write_back s res' = write_back s res" if "fst (write_back s res) = None"
    using write_back_permuted [OF assms(2) d, of s "snd (write_back s res)"] that
    by (metis prod.collapse)
  have 2: "write_back s res = write_back s res'" if "fst (write_back s res') = None"
    using write_back_permuted [OF assms(2) [symmetric] d', of s "snd (write_back s res')"] that
    by (metis prod.collapse)
  have 3: "fit_multiclass plain_sgd in_process self X y
              = (None, set_coef (snd (write_back s res')) (coef (snd (write_back s res'))))"
    if ok: "fst (write_back s res) = None"
  proof -
    from ok have "write_back s res = (None, snd (write_back s res'))"
      using 1 [OF ok] by (metis prod.collapse)
    then show ?thesis
      by (simp add: fit_multiclass_def assms(1) Let_def)
  qed
  have 4: "\<exists>n rws. coef s = Some (Arr2 n rws)
               \<and> coef_row (coef (snd (write_back s res'))) (fst t)
                   = Inr (if length (fst (snd t)) = n then fst (snd t)
                          else replicate n (hd (fst (snd t))))
               \<and> intercept_item (intercept (snd (write_back s res'))) (fst t)
                   = Inr (Scalar0 (snd (snd t)))"
    if ok: "fst (write_back s res) = None" and t: "t \<in> set res" for t
  proof -
    from t have ne: "res \<noteq> []" by auto
    from ova_dispatch_results_shape [OF assms(1) ne] obtain n rws where
      c: "coef s = Some (Arr2 n rws)" by blast
    from ok have wb: "write_back s res = (None, snd (write_back s res'))"
      using 1 [OF ok] by (metis prod.collapse)
    have "(fst t, fst (snd t), snd (snd t)) \<in> set res"
      using t by simp
    from write_back_own_index [OF d wb this c] c show ?thesis
      by blast
  qed
  from 1 2 3 4 show ?thesis
    by (intro conjI impI ballI iffI) auto
qed

text \<open>
  The dispatch of the three-class example run in worker processes: the rows of \<^verbatim>\<open>coef_\<close>
  are still zero when the results come back.
\<close>

lemma example_dispatch:
  "ova_dispatch inplace_kernel False example_multiclass (as_csr example_X) example_y3
     (enumerate 0 (classes example_multiclass))
   = (Inr [(0, [3, 3], 4), (1, [5, 5], 4), (2, [7, 7], 4)], example_multiclass)"
  by (simp add: example_multiclass_def example_X_def example_y3_def index_def ova_task_def
      train_ova_classifier_def task_effect_def inplace_kernel_def written_def Let_def
      encode_labels_eq)

text \<open>
  Claim C5 on the three-class example: the results written back in the order
  \<open>2, 0, 1\<close> and in the order \<open>0, 1, 2\<close> give the rows \<open>[3, 3]\<close>, \<open>[5, 5]\<close>, \<open>[7, 7]\<close> and
  the intercepts \<open>4, 4, 4\<close>, the result of class index \<open>2\<close> at index \<open>2\<close>.
\<close>

theorem write_back_order_independent_witness:
  "write_back example_multiclass [(2, [7, 7], 4), (0, [3, 3], 4), (1, [5, 5], 4)]
   = write_back example_multiclass [(0, [3, 3], 4), (1, [5, 5], 4), (2, [7, 7], 4)]
   \<and> fst (write_back example_multiclass [(0, [3, 3], 4), (1, [5, 5], 4), (2, [7, 7], 4)]) = None
   \<and> fit_multiclass inplace_kernel False example_multiclass example_X example_y3
       = (None, set_coef
            (snd (write_back example_multiclass [(2, [7, 7], 4), (0, [3, 3], 4), (1, [5, 5], 4)]))
            (Some (Arr2 2 [[3, 3], [5, 5], [7, 7]])))
   \<and> coef (snd (write_back example_multiclass [(2, [7, 7], 4), (0, [3, 3], 4), (1, [5, 5], 4)]))
       = Some (Arr2 2 [[3, 3], [5, 5], [7, 7]])
   \<and> intercept (snd (write_back example_multiclass [(2, [7, 7], 4), (0, [3, 3], 4), (1, [5, 5], 4)]))
       = Vec1 [4, 4, 4]
   \<and> coef_row (coef (snd (write_back example_multiclass
         [(2, [7, 7], 4), (0, [3, 3], 4), (1, [5, 5], 4)]))) 2 = Inr [7, 7]
   \<and> intercept_item (intercept (snd (write_back example_multiclass
         [(2, [7, 7], 4), (0, [3, 3], 4), (1, [5, 5], 4)]))) 2 = Inr (Scalar0 4)"
proof -
  let ?res = "[(0, [3, 3], 4), (1, [5, 5], 4), (2, [7, 7], 4)] :: (nat \<times> real list \<times> real) list"
  let ?res' = "[(2, [7, 7], 4), (0, [3, 3], 4), (1, [5, 5], 4)] :: (nat \<times> real list \<times> real) list"
  have m: "mset ?res' = mset ?res"
    by simp
  have ok: "fst (write_back example_multiclass ?res) = None"
    by (simp add: write_one_def example_multiclass_def Let_def)
  have c: "coef example_multiclass = Some (Arr2 2 [[0, 0], [0, 0], [0, 0]])"
    by (simp add: example_multiclass_def)
  have v: "coef (snd (write_back example_multiclass ?res')) = Some (Arr2 2 [[3, 3], [5, 5], [7, 7]])"
    "intercept (snd (write_back example_multiclass ?res')) = Vec1 [4, 4, 4]"
    by (simp_all add: write_one_def example_multiclass_def Let_def)
  from write_back_order_independent [OF example_dispatch m, THEN conjunct2, THEN mp, OF ok]
  have eq: "write_back example_multiclass ?res' = write_back example_multiclass ?res"
    and fit: "fit_multiclass inplace_kernel False example_multiclass example_X example_y3
              = (None, set_coef (snd (write_back example_multiclass ?res'))
                   (coef (snd (write_back example_multiclass ?res'))))"
    and own: "\<forall>t \<in> set ?res. \<exists>n rws. coef example_multiclass = Some (Arr2 n rws)
               \<and> coef_row (coef (snd (write_back example_multiclass ?res'))) (fst t)
                   = Inr (if length (fst (snd t)) = n then fst (snd t)
                          else replicate n (hd (fst (snd t))))
               \<and> intercept_item (intercept (snd (write_back example_multiclass ?res'))) (fst t)
                   = Inr (Scalar0 (snd (snd t)))"
    by blast+
  have "(2, [7, 7], 4) \<in> set ?res" by simp
  from own [THEN bspec, OF this] c
  have at: "coef_row (coef (snd (write_back example_multiclass ?res'))) 2 = Inr [7, 7]"
    "intercept_item (intercept (snd (write_back example_multiclass ?res'))) 2 = Inr (Scalar0 4)"
    by auto
  from eq ok fit at show ?thesis
    unfolding v by simp
qed

section \<open>The class weights of the sub-fits\<close>

text \<open>
  Claim C10. \<^verbatim>\<open>_train_ova_classifier\<close> calls the kernel with its parameter
  \<^verbatim>\<open>class_weight_pos\<close> as positive-class weight and the constant \<open>1\<close> as negative-class
  weight; a multiclass fit therefore depends on the kernel only at arguments whose
  negative-class weight is \<open>1\<close> and whose positive-class weight is one of the configured
  class weights. In a multiclass fit whose sub-fits return, the sub-fit of class index \<open>k\<close>
  calls the kernel with the positive-class weight \<^verbatim>\<open>class_weight[k]\<close> and the negative-class
  weight \<open>1\<close>, and what that call returns is what the fit stores at index \<open>k\<close>. The binary
  fit is the rest of \<^verbatim>\<open>_fit_binary\<close> applied to the kernel's result on arguments with the
  weights \<^verbatim>\<open>class_weight[1]\<close> and \<^verbatim>\<open>class_weight[0]\<close>.
\<close>

theorem ova_negative_weight_is_one:
  "(\<exists>a. train_ova_classifier plain_sgd i c X_data X_indices X_indptr y' w b lf pt al rh ni fi
          vb sh sd cw sw lr e0 p0 = (i, plain_sgd w b a)
        \<and> k_weight_pos a = cw \<and> k_weight_neg a = 1)
   \<and> ((\<forall>w b a. k_weight_neg a = 1 \<and> k_weight_pos a \<in> set (class_weight self) \<longrightarrow>
               K w b a = K' w b a) \<longrightarrow>
        fit_multiclass K in_process self X y = fit_multiclass K' in_process self X y)
   \<and> (coef self = Some (Arr2 n rows) \<and> intercept self = Vec1 bs
        \<and> length rows = length (classes self) \<and> length bs = length (classes self)
        \<and> length (classes self) \<le> length (class_weight self)
        \<and> (\<forall>j < length (classes self). \<exists>buf w' b'.
              snd (ova_task K self (as_csr X) y j (classes self ! j) (rows ! j)
                     (Scalar0 (bs ! j)) (class_weight self ! j)) = Returned buf w' b'
              \<and> length w' = n)
        \<and> k < length (classes self) \<longrightarrow>
        (\<exists>a buf w' b'.
           ova_task K self (as_csr X) y k (classes self ! k) (rows ! k)
               (Scalar0 (bs ! k)) (class_weight self ! k)
             = (k, K (rows ! k) (Scalar0 (bs ! k)) a)
         \<and> k_weight_pos a = class_weight self ! k \<and> k_weight_neg a = 1
         \<and> K (rows ! k) (Scalar0 (bs ! k)) a = Returned buf w' b'
         \<and> fst (fit_multiclass K in_process self X y) = None
         \<and> coef_row (coef (snd (fit_multiclass K in_process self X y))) k = Inr w'
         \<and> intercept_item (intercept (snd (fit_multiclass K in_process self X y))) k
             = Inr (Scalar0 b')))
   \<and> (\<forall>w b args. binary_call self X y = Inr (w, b, args) \<longrightarrow>
         k_weight_pos args = class_weight self ! 1 \<and> k_weight_neg args = class_weight self ! 0
         \<and> fit_binary K self X y = binary_finish self w (K w b args))"
proof (intro conjI impI allI)
  show "\<exists>a. train_ova_classifier plain_sgd i c X_data X_indices X_indptr y' w b lf pt al rh ni fi
          vb sh sd cw sw lr e0 p0 = (i, plain_sgd w b a)
        \<and> k_weight_pos a = cw \<and> k_weight_neg a = 1"
    unfolding train_ova_classifier_def Let_def
    by (intro exI conjI, rule refl, simp_all)
next
  assume "\<forall>w b a. k_weight_neg a = 1 \<and> k_weight_pos a \<in> set (class_weight self) \<longrightarrow>
               K w b a = K' w b a"
  then have "\<And>w b a. k_weight_neg a = 1 \<Longrightarrow> k_weight_pos a \<in> set (class_weight self) \<Longrightarrow>
               K w b a = K' w b a"
    by blast
  from ova_dispatch_agree [OF this refl]
  show "fit_multiclass K in_process self X y = fit_multiclass K' in_process self X y"
    by (simp add: fit_multiclass_def)
next
  assume h: "coef self = Some (Arr2 n rows) \<and> intercept self = Vec1 bs
        \<and> length rows = length (classes self) \<and> length bs = length (classes self)
        \<and> length (classes self) \<le> length (class_weight self)
        \<and> (\<forall>j < length (classes self). \<exists>buf w' b'.
              snd (ova_task K self (as_csr X) y j (classes self ! j) (rows ! j)
                     (Scalar0 (bs ! j)) (class_weight self ! j)) = Returned buf w' b'
              \<and> length w' = n)
        \<and> k < length (classes self)"
  then have c: "coef self = Some (Arr2 n rows)" and b: "intercept self = Vec1 bs"
    and lens: "length rows = length (classes self)" "length bs = length (classes self)"
              "length (classes self) \<le> length (class_weight self)"
    and ret: "\<forall>j < length (classes self). \<exists>buf w' b'.
              snd (ova_task K self (as_csr X) y j (classes self ! j) (rows ! j)
                     (Scalar0 (bs ! j)) (class_weight self ! j)) = Returned buf w' b'
              \<and> length w' = n"
    and k: "k < length (classes self)"
    by simp_all
  from ova_task_weights [of K self "as_csr X" y k "classes self ! k" "rows ! k"
      "Scalar0 (bs ! k)" "class_weight self ! k"]
  obtain a where a: "ova_task K self (as_csr X) y k (classes self ! k) (rows ! k)
               (Scalar0 (bs ! k)) (class_weight self ! k)
             = (k, K (rows ! k) (Scalar0 (bs ! k)) a)"
     "k_weight_pos a = class_weight self ! k" "k_weight_neg a = 1"
    by blast
  from fit_multiclass_rows [OF c b lens ret k, of in_process] a
  show "\<exists>a buf w' b'.
           ova_task K self (as_csr X) y k (classes self ! k) (rows ! k)
               (Scalar0 (bs ! k)) (class_weight self ! k)
             = (k, K (rows ! k) (Scalar0 (bs ! k)) a)
         \<and> k_weight_pos a = class_weight self ! k \<and> k_weight_neg a = 1
         \<and> K (rows ! k) (Scalar0 (bs ! k)) a = Returned buf w' b'
         \<and> fst (fit_multiclass K in_process self X y) = None
         \<and> coef_row (coef (snd (fit_multiclass K in_process self X y))) k = Inr w'
         \<and> intercept_item (intercept (snd (fit_multiclass K in_process self X y))) k
             = Inr (Scalar0 b')"
    by auto
next
  fix w b args
  assume "binary_call self X y = Inr (w, b, args)"
  then show "k_weight_pos args = class_weight self ! 1"
    by (auto simp: binary_call_def Let_def index_def split: sum.splits if_splits)
next
  fix w b args
  assume "binary_call self X y = Inr (w, b, args)"
  then show "k_weight_neg args = class_weight self ! 0"
    by (auto simp: binary_call_def Let_def index_def split: sum.splits if_splits)
next
  fix w b args
  assume "binary_call self X y = Inr (w, b, args)"
  then show "fit_binary K self X y = binary_finish self w (K w b args)"
    by (simp add: fit_binary_def)
qed

text \<open>
  Claim C10 on the examples: the three-class fit is the same under a kernel that raises
  whenever its negative-class weight is not \<open>1\<close>; its sub-fit of class index \<open>1\<close> runs
  with the weights \<open>5\<close> and \<open>1\<close>, and the kernel, which moves every weight by the
  positive-class weight, leaves \<open>[5, 5]\<close> at index \<open>1\<close>; the binary example passes the
  weights \<open>5\<close> and \<open>3\<close>.
\<close>

theorem ova_negative_weight_is_one_witness:
  "fit_multiclass inplace_kernel True example_multiclass example_X example_y3
     = fit_multiclass
         (\<lambda>w b a. if k_weight_neg a = 1 then inplace_kernel w b a else Raised (KernelError 2) w)
         True example_multiclass example_X example_y3
   \<and> (\<exists>a. ova_task inplace_kernel example_multiclass (as_csr example_X) example_y3 1 1 [0, 0]
             (Scalar0 0) 5 = (1, inplace_kernel [0, 0] (Scalar0 0) a)
          \<and> k_weight_pos a = 5 \<and> k_weight_neg a = 1
          \<and> inplace_kernel [0, 0] (Scalar0 0) a = Returned [5, 5] [5, 5] 4)
   \<and> fst (fit_multiclass inplace_kernel True example_multiclass example_X example_y3) = None
   \<and> coef_row (coef (snd (fit_multiclass inplace_kernel True example_multiclass example_X
         example_y3))) 1 = Inr [5, 5]
   \<and> intercept_item (intercept (snd (fit_multiclass inplace_kernel True example_multiclass
         example_X example_y3))) 1 = Inr (Scalar0 4)
   \<and> k_weight_pos (snd (snd (projr (binary_call example_classifier example_X example_y)))) = 5
   \<and> k_weight_neg (snd (snd (projr (binary_call example_classifier example_X example_y)))) = 3
   \<and> fit_binary inplace_kernel example_classifier example_X example_y
       = binary_finish example_classifier [0, 0]
           (inplace_kernel [0, 0] (Vec1 [0])
              (snd (snd (projr (binary_call example_classifier example_X example_y)))))"
proof -
  let ?K' = "\<lambda>w b a. if k_weight_neg a = 1 then inplace_kernel w b a else Raised (KernelError 2) w"
  let ?args = "snd (snd (projr (binary_call example_classifier example_X example_y)))"
  let ?rows = "[[0, 0], [0, 0], [0, 0]] :: real list list"
  let ?bs = "[0, 0, 0] :: real list"
  have call: "binary_call example_classifier example_X example_y = Inr ([0, 0], Vec1 [0], ?args)"
    by (simp add: binary_call_def example_classifier_def index_def Let_def)
  have cw: "class_weight example_classifier ! 1 = 5" "class_weight example_classifier ! 0 = 3"
    by (simp_all add: example_classifier_def)
  have a: "\<forall>w b a. k_weight_neg a = 1 \<and> k_weight_pos a \<in> set (class_weight example_multiclass) \<longrightarrow>
               inplace_kernel w b a = ?K' w b a"
    by simp
  have m: "fit_multiclass inplace_kernel True example_multiclass example_X example_y3
     = fit_multiclass ?K' True example_multiclass example_X example_y3"
    by (rule ova_negative_weight_is_one
      [where K = inplace_kernel and K' = ?K' and self = example_multiclass and in_process = True
         and X = example_X and y = example_y3, THEN conjunct2, THEN conjunct1, THEN mp, OF a])
  have len: "length (classes example_multiclass) = Suc (Suc (Suc 0))"
    by (simp add: example_multiclass_def)
  have ret: "\<forall>j < length (classes example_multiclass). \<exists>buf w' b'.
              snd (ova_task inplace_kernel example_multiclass (as_csr example_X) example_y3 j
                     (classes example_multiclass ! j) (?rows ! j)
                     (Scalar0 (?bs ! j)) (class_weight example_multiclass ! j))
                = Returned buf w' b'
              \<and> length w' = 2"
    unfolding len
    by (simp add: less_Suc_eq ova_task_def train_ova_classifier_def inplace_kernel_def Let_def)
  have h: "coef example_multiclass = Some (Arr2 2 ?rows) \<and> intercept example_multiclass = Vec1 ?bs
        \<and> length ?rows = length (classes example_multiclass)
        \<and> length ?bs = length (classes example_multiclass)
        \<and> length (classes example_multiclass) \<le> length (class_weight example_multiclass)
        \<and> (\<forall>j < length (classes example_multiclass). \<exists>buf w' b'.
              snd (ova_task inplace_kernel example_multiclass (as_csr example_X) example_y3 j
                     (classes example_multiclass ! j) (?rows ! j)
                     (Scalar0 (?bs ! j)) (class_weight example_multiclass ! j))
                = Returned buf w' b'
              \<and> length w' = 2)
        \<and> 1 < length (classes example_multiclass)"
    using ret by (simp add: example_multiclass_def)
  from ova_negative_weight_is_one
      [where K = inplace_kernel and self = example_multiclass and in_process = True
         and X = example_X and y = example_y3 and n = 2 and rows = ?rows and bs = ?bs
         and k = 1, THEN conjunct2, THEN conjunct2, THEN conjunct1, THEN mp, OF h]
  obtain a buf w' b' where r:
    "ova_task inplace_kernel example_multiclass (as_csr example_X) example_y3 1
        (classes example_multiclass ! 1) (?rows ! 1) (Scalar0 (?bs ! 1))
        (class_weight example_multiclass ! 1)
      = (1, inplace_kernel (?rows ! 1) (Scalar0 (?bs ! 1)) a)"
    "k_weight_pos a = class_weight example_multiclass ! 1" "k_weight_neg a = 1"
    "inplace_kernel (?rows ! 1) (Scalar0 (?bs ! 1)) a = Returned buf w' b'"
    "fst (fit_multiclass inplace_kernel True example_multiclass example_X example_y3) = None"
    "coef_row (coef (snd (fit_multiclass inplace_kernel True example_multiclass example_X
             example_y3))) 1 = Inr w'"
    "intercept_item (intercept (snd (fit_multiclass inplace_kernel True example_multiclass
             example_X example_y3))) 1 = Inr (Scalar0 b')"
    by blast
  have cl: "classes example_multiclass ! 1 = 1" "class_weight example_multiclass ! 1 = 5"
    "classes example_multiclass ! Suc 0 = 1" "class_weight example_multiclass ! Suc 0 = 5"
    by (simp_all add: example_multiclass_def)
  have ky: "length (k_y a) = 4"
    using r(1)
    by (simp add: cl ova_task_def train_ova_classifier_def inplace_kernel_def Let_def
        encode_labels_eq example_y3_def)
  have v: "inplace_kernel [0, 0] (Scalar0 0) a = Returned [5, 5] [5, 5] 4"
    using r(2) by (simp add: inplace_kernel_def Let_def ky cl)
  with r(4) have "w' = [5, 5]" "b' = 4" by auto
  with r v have sub: "\<exists>a. ova_task inplace_kernel example_multiclass (as_csr example_X) example_y3
             1 1 [0, 0] (Scalar0 0) 5 = (1, inplace_kernel [0, 0] (Scalar0 0) a)
          \<and> k_weight_pos a = 5 \<and> k_weight_neg a = 1
          \<and> inplace_kernel [0, 0] (Scalar0 0) a = Returned [5, 5] [5, 5] 4"
    and fit: "fst (fit_multiclass inplace_kernel True example_multiclass example_X example_y3) = None"
      "coef_row (coef (snd (fit_multiclass inplace_kernel True example_multiclass example_X
         example_y3))) 1 = Inr [5, 5]"
      "intercept_item (intercept (snd (fit_multiclass inplace_kernel True example_multiclass
         example_X example_y3))) 1 = Inr (Scalar0 4)"
    by (auto simp: cl intro!: exI [of _ a])
  have b: "k_weight_pos ?args = class_weight example_classifier ! 1
         \<and> k_weight_neg ?args = class_weight example_classifier ! 0
         \<and> fit_binary inplace_kernel example_classifier example_X example_y
             = binary_finish example_classifier [0, 0] (inplace_kernel [0, 0] (Vec1 [0]) ?args)"
    by (rule ova_negative_weight_is_one
      [where self = example_classifier and X = example_X and y = example_y
         and K = inplace_kernel,
         THEN conjunct2, THEN conjunct2, THEN conjunct2, THEN spec, THEN spec, THEN spec,
         THEN mp, OF call])
  from m sub fit b cw show ?thesis
    by simp
qed

section \<open>The sparse copy of the weights\<close>

lemma coef_row_wf_length:
  assumes "a = Some (Arr2 n rws)" "list_all (\<lambda>r. length r = n) rws" "coef_row a i = Inr w"
  shows "length w = n"
  using assms by (auto simp: index_def list_all_length split: if_splits)

lemma ova_dispatch_wf:
  "coef self = Some (Arr2 n rws) \<Longrightarrow> list_all (\<lambda>r. length r = n) rws \<Longrightarrow>
   ova_dispatch K ip self X y tasks = (r, s) \<Longrightarrow>
   \<exists>rws'. coef s = Some (Arr2 n rws') \<and> list_all (\<lambda>r. length r = n) rws'"
proof (induction tasks arbitrary: self rws r)
  case Nil
  then show ?case by auto
next
  case (Cons t tasks)
  obtain i c where t: "t = (i, c)" by (cases t)
  have eff: "\<exists>rws'. coef (task_effect ip self i w kr) = Some (Arr2 n rws')
               \<and> list_all (\<lambda>r. length r = n) rws'"
    if "coef_row (coef self) i = Inr w" for w kr
  proof -
    have "length w = n"
      using coef_row_wf_length [OF Cons.prems(1,2) that] .
    with task_effect_coef [OF Cons.prems(1), of ip i w kr] Cons.prems(2) show ?thesis
      by blast
  qed
  from ova_dispatch_Cons_state [OF Cons.prems(3) [unfolded t]]
  consider "s = self"
    | w b a where "coef_row (coef self) i = Inr w" "s = task_effect ip self i w (K w b a)"
    | w b a r' where "coef_row (coef self) i = Inr w"
        "ova_dispatch K ip (task_effect ip self i w (K w b a)) X y tasks = (r', s)"
    by blast
  then show ?case
  proof cases
    case 1
    with Cons.prems show ?thesis by blast
  next
    case 2
    with eff [OF 2(1)] show ?thesis by blast
  next
    case 3
    from eff [OF 3(1), of "K w b a"] obtain rws1 where
      "coef (task_effect ip self i w (K w b a)) = Some (Arr2 n rws1)"
      "list_all (\<lambda>r. length r = n) rws1" by blast
    from Cons.IH [OF this 3(2)] show ?thesis .
  qed
qed

lemma assign_row_wf:
  assumes "assign_row (Some (Arr2 n rws)) i v = Inr a" "list_all (\<lambda>r. length r = n) rws"
  shows "\<exists>rws'. a = Some (Arr2 n rws') \<and> list_all (\<lambda>r. length r = n) rws'"
proof -
  have upd: "list_all (\<lambda>r. length r = n) (rws[i := u])" if "length u = n" for u
    using that assms(2)
    by (auto simp: list_all_iff dest: set_update_subset_insert [THEN subsetD])
  from assms(1) consider "a = Some (Arr2 n (rws[i := v]))" "length v = n"
    | x where "a = Some (Arr2 n (rws[i := replicate n x]))"
    by (auto split: if_splits list.splits)
  then show ?thesis
  proof cases
    case 1
    with upd [of v] show ?thesis by blast
  next
    case 2
    with upd [of "replicate n x"] show ?thesis by simp
  qed
qed

lemma write_back_wf:
  "coef s = Some (Arr2 n rws) \<Longrightarrow> list_all (\<lambda>r. length r = n) rws \<Longrightarrow>
   write_back s res = (None, s') \<Longrightarrow>
   \<exists>rws'. coef s' = Some (Arr2 n rws') \<and> list_all (\<lambda>r. length r = n) rws'"
proof (induction res arbitrary: s rws)
  case Nil
  then show ?case by auto
next
  case (Cons t res)
  obtain i v b where t: "t = (i, v, b)" by (cases t)
  from Cons.prems(3) obtain s1 where s1: "write_one s t = (None, s1)" "write_back s1 res = (None, s')"
    unfolding write_back_Cons_None by blast
  from s1(1) obtain a' b' where a: "assign_row (coef s) i v = Inr a'"
      "s1 = s\<lparr>coef := a', intercept := b'\<rparr>"
    unfolding t write_one_None_iff by blast
  from assign_row_wf [OF a(1) [unfolded Cons.prems(1)] Cons.prems(2)] obtain rws1 where
    "a' = Some (Arr2 n rws1)" "list_all (\<lambda>r. length r = n) rws1" by blast
  with a(2) have "coef s1 = Some (Arr2 n rws1)" by simp
  from Cons.IH [OF this \<open>list_all (\<lambda>r. length r = n) rws1\<close> s1(2)] show ?case .
qed

lemma fit_multiclass_None:
  assumes "fst (fit_multiclass K ip self X y) = None"
  obtains res s1 s2 where
    "ova_dispatch K ip self (as_csr X) y (enumerate 0 (classes self)) = (Inr res, s1)"
    "write_back s1 res = (None, s2)"
    "snd (fit_multiclass K ip self X y) = set_coef s2 (coef s2)"
proof -
  obtain q s1 where d: "ova_dispatch K ip self (as_csr X) y (enumerate 0 (classes self)) = (q, s1)"
    by (cases "ova_dispatch K ip self (as_csr X) y (enumerate 0 (classes self))")
  show ?thesis
  proof (cases q)
    case (Inl e)
    with assms d show ?thesis by (simp add: fit_multiclass_def)
  next
    case (Inr res)
    obtain o2 s2 where w: "write_back s1 res = (o2, s2)"
      by (cases "write_back s1 res")
    show ?thesis
    proof (cases o2)
      case (Some e)
      with assms d Inr w show ?thesis by (simp add: fit_multiclass_def)
    next
      case None
      with d Inr w have "snd (fit_multiclass K ip self X y) = set_coef s2 (coef s2)"
        by (simp add: fit_multiclass_def Let_def)
      with that d Inr w None show ?thesis by blast
    qed
  qed
qed

text \<open>
  Claim C6 does not hold after a regressor fit: \<^verbatim>\<open>coef_\<close> is one-dimensional there, and a
  CSR matrix densifies to a two-dimensional array. On the example regressor \<^verbatim>\<open>coef_\<close> is
  \<open>[1, 1]\<close> and the densified \<^verbatim>\<open>sparse_coef_\<close> is \<open>[[1, 1]]\<close>.
\<close>

theorem sparse_coef_dense_shape_counterexample:
  "map_option todense
     (sparse_coef (snd (fit_regressor inplace_kernel example_regressor example_X example_y)))
     = Some (Arr2 2 [[1, 1]])
   \<and> coef (snd (fit_regressor inplace_kernel example_regressor example_X example_y))
     = Some (Arr1 [1, 1])
   \<and> Some (Arr2 2 [[1, 1]]) \<noteq> Some (Arr1 [1, 1])"
proof -
  have "snd (fit_regressor inplace_kernel example_regressor example_X example_y)
      = example_regressor\<lparr>coef := Some (Arr1 [1, 1]),
          sparse_coef := Some (csr_matrix (Arr1 [1, 1])), intercept := Scalar0 4\<rparr>"
    by (simp add: fit_regressor_def regressor_call_def regressor_finish_def set_coef_def
        inplace_kernel_def example_regressor_def example_y_def written_def Let_def)
  moreover have "todense (csr_matrix (Arr1 [1, 1])) = Arr2 2 [[1, 1]]"
    using todense_csr_matrix [of "Arr1 [1, 1]"] by (simp add: numeral_2_eq_2)
  ultimately show ?thesis by simp
qed

text \<open>
  Claim C6 as amended. After every fit that returns, densifying \<^verbatim>\<open>sparse_coef_\<close> gives
  \<^verbatim>\<open>coef_\<close> in two-dimensional shape: \<^verbatim>\<open>coef_\<close> itself after a binary fit and after a
  multiclass fit (of a model whose \<^verbatim>\<open>coef_\<close> is a rectangular 2-D array), and the one-row
  matrix of the 1-D \<^verbatim>\<open>coef_\<close> after a regressor fit.
\<close>

theorem sparse_coef_is_coef_in_2d:
  "(fst (fit_binary plain_sgd clf X y) = None \<longrightarrow>
      coef (snd (fit_binary plain_sgd clf X y)) \<noteq> None
    \<and> map_option todense (sparse_coef (snd (fit_binary plain_sgd clf X y)))
        = coef (snd (fit_binary plain_sgd clf X y)))
 \<and> (coef mclf = Some (Arr2 n rows) \<and> list_all (\<lambda>r. length r = n) rows
    \<and> fst (fit_multiclass plain_sgd in_process mclf mX my) = None \<longrightarrow>
      coef (snd (fit_multiclass plain_sgd in_process mclf mX my)) \<noteq> None
    \<and> map_option todense (sparse_coef (snd (fit_multiclass plain_sgd in_process mclf mX my)))
        = coef (snd (fit_multiclass plain_sgd in_process mclf mX my)))
 \<and> (fst (fit_regressor plain_sgd reg Xr yr) = None \<longrightarrow>
      coef (snd (fit_regressor plain_sgd reg Xr yr)) \<noteq> None
    \<and> map_option todense (sparse_coef (snd (fit_regressor plain_sgd reg Xr yr)))
        = map_option atleast_2d (coef (snd (fit_regressor plain_sgd reg Xr yr))))"
proof (intro conjI impI)
  assume ok: "fst (fit_binary plain_sgd clf X y) = None"
  then obtain w b args where call: "binary_call clf X y = Inr (w, b, args)"
    by (cases "binary_call clf X y") (auto simp: fit_binary_def)
  with ok obtain buf nc ni where r: "plain_sgd w b args = Returned buf nc ni"
    by (cases "plain_sgd w b args") (auto simp: fit_binary_def binary_finish_def Let_def)
  have c: "coef (snd (fit_binary plain_sgd clf X y)) = Some (atleast_2d (Arr1 (written w buf)))"
    and s: "sparse_coef (snd (fit_binary plain_sgd clf X y))
           = Some (csr_matrix (atleast_2d (Arr1 (written w buf))))"
    using call r by (simp_all add: fit_binary_def binary_finish_def set_coef_def Let_def)
  show "coef (snd (fit_binary plain_sgd clf X y)) \<noteq> None"
    using c by simp
  show "map_option todense (sparse_coef (snd (fit_binary plain_sgd clf X y)))
        = coef (snd (fit_binary plain_sgd clf X y))"
    unfolding c s using todense_csr_matrix [of "atleast_2d (Arr1 (written w buf))"] by simp
next
  assume a: "coef mclf = Some (Arr2 n rows) \<and> list_all (\<lambda>r. length r = n) rows
    \<and> fst (fit_multiclass plain_sgd in_process mclf mX my) = None"
  then have ok: "fst (fit_multiclass plain_sgd in_process mclf mX my) = None" by simp
  from ok obtain res s1 s2 where
    d: "ova_dispatch plain_sgd in_process mclf (as_csr mX) my (enumerate 0 (classes mclf))
          = (Inr res, s1)"
    and w: "write_back s1 res = (None, s2)"
    and f: "snd (fit_multiclass plain_sgd in_process mclf mX my) = set_coef s2 (coef s2)"
    by (rule fit_multiclass_None)
  from a ova_dispatch_wf [OF _ _ d] obtain rws1 where
    "coef s1 = Some (Arr2 n rws1)" "list_all (\<lambda>r. length r = n) rws1" by blast
  from write_back_wf [OF this w] obtain rws2 where
    2: "coef s2 = Some (Arr2 n rws2)" "list_all (\<lambda>r. length r = n) rws2" by blast
  show "coef (snd (fit_multiclass plain_sgd in_process mclf mX my)) \<noteq> None"
    unfolding f using 2 by (simp add: set_coef_def)
  show "map_option todense (sparse_coef (snd (fit_multiclass plain_sgd in_process mclf mX my)))
        = coef (snd (fit_multiclass plain_sgd in_process mclf mX my))"
    unfolding f using 2 todense_csr_matrix [of "Arr2 n rws2"] by (simp add: set_coef_def)
next
  assume ok: "fst (fit_regressor plain_sgd reg Xr yr) = None"
  then obtain w b args where call: "regressor_call reg Xr yr = Inr (w, b, args)"
    by (cases "regressor_call reg Xr yr") (auto simp: fit_regressor_def)
  with ok obtain buf nc ni where r: "plain_sgd w b args = Returned buf nc ni"
    by (cases "plain_sgd w b args") (auto simp: fit_regressor_def regressor_finish_def Let_def)
  have c: "coef (snd (fit_regressor plain_sgd reg Xr yr)) = Some (Arr1 (written w buf))"
    and s: "sparse_coef (snd (fit_regressor plain_sgd reg Xr yr))
           = Some (csr_matrix (Arr1 (written w buf)))"
    using call r by (simp_all add: fit_regressor_def regressor_finish_def set_coef_def Let_def)
  show "coef (snd (fit_regressor plain_sgd reg Xr yr)) \<noteq> None"
    using c by simp
  show "map_option todense (sparse_coef (snd (fit_regressor plain_sgd reg Xr yr)))
        = map_option atleast_2d (coef (snd (fit_regressor plain_sgd reg Xr yr)))"
    unfolding c s using todense_csr_matrix [of "Arr1 (written w buf)"] by simp
qed


text \<open>The three example fits with the kernel that updates in place.\<close>

lemma example_fits:
  "fst (fit_binary inplace_kernel example_classifier example_X example_y) = None"
  "coef (snd (fit_binary inplace_kernel example_classifier example_X example_y))
     = Some (Arr2 2 [[5, 5]])"
  "fst (fit_multiclass inplace_kernel True example_multiclass example_X example_y3) = None"
  "coef (snd (fit_multiclass inplace_kernel True example_multiclass example_X example_y3))
     = Some (Arr2 2 [[3, 3], [5, 5], [7, 7]])"
  "fst (fit_regressor inplace_kernel example_regressor example_X example_y) = None"
  "coef (snd (fit_regressor inplace_kernel example_regressor example_X example_y))
     = Some (Arr1 [1, 1])"
  by (simp_all add: fit_binary_def binary_call_def binary_finish_def fit_multiclass_def
      fit_regressor_def regressor_call_def regressor_finish_def set_coef_def write_one_def
      ova_task_def train_ova_classifier_def task_effect_def inplace_kernel_def
      example_classifier_def example_multiclass_def example_regressor_def
      example_y_def example_y3_def index_def written_def Let_def encode_labels_eq)

text \<open>Claim C6 as amended, on the three example fits.\<close>

theorem sparse_coef_is_coef_in_2d_witness:
  "map_option todense
     (sparse_coef (snd (fit_binary inplace_kernel example_classifier example_X example_y)))
     = Some (Arr2 2 [[5, 5]])
   \<and> map_option todense
     (sparse_coef (snd (fit_multiclass inplace_kernel True example_multiclass example_X
        example_y3)))
     = Some (Arr2 2 [[3, 3], [5, 5], [7, 7]])
   \<and> map_option todense
     (sparse_coef (snd (fit_regressor inplace_kernel example_regressor example_X example_y)))
     = Some (Arr2 2 [[1, 1]])"
proof -
  have c3: "coef example_multiclass = Some (Arr2 2 [[0, 0], [0, 0], [0, 0]])
      \<and> list_all (\<lambda>r. length r = 2) [[0, 0], [0, 0], [0 :: real, 0]]
      \<and> fst (fit_multiclass inplace_kernel True example_multiclass example_X example_y3) = None"
    using example_fits(3) by (simp add: example_multiclass_def)
  note t = sparse_coef_is_coef_in_2d
    [where plain_sgd = inplace_kernel and clf = example_classifier and X = example_X
       and y = example_y and mclf = example_multiclass and mX = example_X and my = example_y3
       and in_process = True and n = 2 and rows = "[[0, 0], [0, 0], [0, 0]]"
       and reg = example_regressor and Xr = example_X and yr = example_y]
  from t example_fits(1) have 1: "map_option todense
     (sparse_coef (snd (fit_binary inplace_kernel example_classifier example_X example_y)))
     = Some (Arr2 2 [[5, 5]])"
    by (simp add: example_fits(2))
  from t c3 have 2: "map_option todense
     (sparse_coef (snd (fit_multiclass inplace_kernel True example_multiclass example_X
        example_y3)))
     = Some (Arr2 2 [[3, 3], [5, 5], [7, 7]])"
    by (simp add: example_fits(4))
  from t example_fits(5) have 3: "map_option todense
     (sparse_coef (snd (fit_regressor inplace_kernel example_regressor example_X example_y)))
     = Some (Arr2 2 [[1, 1]])"
    by (simp add: example_fits(6) numeral_2_eq_2)
  from 1 2 3 show ?thesis by blast
qed

section \<open>The scores\<close>

lemma sum_list_delta:
  "j < n \<Longrightarrow> sum_list (map (\<lambda>k. if j = k then f k else (0 :: real)) [0..<n]) = f j"
  by (simp add: interv_sum_list_conv_sum_set_nat)

lemma row_get_Cons:
  "row_get ((j, v) # ps) k = (if j = k then v else 0) + row_get ps k"
  by (simp add: row_get_def)

lemma sparse_dot_dense:
  "\<forall>p \<in> set ps. fst p < n \<Longrightarrow>
   sparse_dot ps qs = sum_list (map (\<lambda>k. row_get ps k * row_get qs k) [0..<n])"
proof (induction ps)
  case Nil
  show ?case by (simp add: sparse_dot_def row_get_def)
next
  case (Cons p ps)
  obtain j v where p: "p = (j, v)" by (cases p)
  from Cons.prems p have j: "j < n" by simp
  have "sum_list (map (\<lambda>k. row_get ((j, v) # ps) k * row_get qs k) [0..<n])
      = sum_list (map (\<lambda>k. (if j = k then v * row_get qs k else 0)
                          + row_get ps k * row_get qs k) [0..<n])"
    by (rule arg_cong [where f = sum_list], rule map_cong)
       (simp_all add: row_get_Cons algebra_simps)
  also have "\<dots> = sum_list (map (\<lambda>k. if j = k then v * row_get qs k else 0) [0..<n])
                + sum_list (map (\<lambda>k. row_get ps k * row_get qs k) [0..<n])"
    by (simp add: sum_list_addf)
  also have "\<dots> = v * row_get qs j + sparse_dot ps qs"
    using Cons sum_list_delta [OF j, of "\<lambda>k. v * row_get qs k"] by simp
  finally show ?case
    by (simp add: sparse_dot_def p)
qed

lemma dense_dot_zip:
  assumes "length x = n" "length w = n"
  shows "sum_list (map (\<lambda>k. x ! k * w ! k) [0..<n]) = sum_list (map (\<lambda>(a, c). a * c) (zip x w))"
proof -
  have "map (\<lambda>k. x ! k * w ! k) [0..<n] = map (\<lambda>(a, c). a * c) (zip x w)"
    by (rule nth_equalityI) (simp_all add: assms)
  then show ?thesis by simp
qed

lemma sparse_dot_row_nz:
  assumes "\<forall>p \<in> set ps. fst p < n" "length w = n"
  shows "sparse_dot ps (row_nz w) = spec_score (map (row_get ps) [0..<n]) w 0"
proof -
  have "sparse_dot ps (row_nz w) = sum_list (map (\<lambda>k. row_get ps k * row_get (row_nz w) k) [0..<n])"
    by (rule sparse_dot_dense [OF assms(1)])
  also have "\<dots> = sum_list (map (\<lambda>k. map (row_get ps) [0..<n] ! k * w ! k) [0..<n])"
    by (rule arg_cong [where f = sum_list], rule map_cong)
       (simp_all add: row_get_row_nz assms(2))
  also have "\<dots> = sum_list (map (\<lambda>(a, c). a * c) (zip (map (row_get ps) [0..<n]) w))"
    by (rule dense_dot_zip) (simp_all add: assms(2))
  finally show ?thesis by (simp add: spec_score_def)
qed


lemma row_nz_fst: "p \<in> set (row_nz row) \<Longrightarrow> fst p < length row"
  by (auto simp: row_nz_def in_set_zip)

lemma csr_row_fst:
  assumes "list_all (\<lambda>j. j < ncols A) (indices A)" "p \<in> set (csr_row A i)"
  shows "fst p < ncols A"
proof -
  from assms(2) have "(fst p, snd p) \<in> set (csr_row A i)"
    by simp
  then have "fst p \<in> set (take (indptr A ! Suc i - indptr A ! i) (drop (indptr A ! i) (indices A)))"
    unfolding csr_row_def Let_def by (rule set_zip_leftD)
  then have "fst p \<in> set (indices A)"
    by (blast dest: in_set_takeD in_set_dropD)
  with assms(1) show ?thesis by (simp add: list_all_iff)
qed

lemma dense_rows_todense:
  "dense_rows (todense A)
     = map (\<lambda>i. map (row_get (csr_row A i)) [0..<ncols A]) [0..<nrows A]"
  by (simp add: todense_def)

lemma csr_of_rows_shape [simp]:
  "nrows (csr_of_rows n rows) = length rows" "ncols (csr_of_rows n rows) = n"
  by (simp_all add: csr_of_rows_def)

lemma ncols_csr_matrix: "ncols (csr_matrix a) = n_features a"
  by (cases a) (simp_all add: csr_of_rows_def)

lemma valid_input_csr:
  assumes "valid_input n X"
  shows "ncols (as_csr X) = n"
    and "samples X = map (\<lambda>i. map (row_get (csr_row (as_csr X) i)) [0..<n]) [0..<nrows (as_csr X)]"
    and "\<And>i p. i < nrows (as_csr X) \<Longrightarrow> p \<in> set (csr_row (as_csr X) i) \<Longrightarrow> fst p < n"
proof -
  show n: "ncols (as_csr X) = n"
    using assms by (cases X) (simp_all add: ncols_csr_matrix)
  have "samples X = dense_rows (todense (as_csr X))"
  proof (cases X)
    case (Sparse A)
    then show ?thesis by simp
  next
    case (Dense a)
    with assms have "wf_ndarray a" by simp
    from todense_csr_matrix [OF this] Dense show ?thesis
      by (cases a) simp_all
  qed
  then show "samples X = map (\<lambda>i. map (row_get (csr_row (as_csr X) i)) [0..<n]) [0..<nrows (as_csr X)]"
    by (simp add: dense_rows_todense n)
  show "fst p < n" if "i < nrows (as_csr X)" "p \<in> set (csr_row (as_csr X) i)" for i p
  proof (cases X)
    case (Sparse A)
    with assms that(2) have "list_all (\<lambda>j. j < ncols A) (indices A)" "p \<in> set (csr_row A i)"
      "ncols A = n"
      by (auto simp add: csr_wf_def)
    with csr_row_fst [of A p i] show ?thesis by simp
  next
    case (Dense a)
    show ?thesis
    proof (cases a)
      case (Arr1 xs)
      with Dense assms that have "p \<in> set (row_nz xs)" "length xs = n"
        by (simp_all add: csr_of_rows_row)
      with row_nz_fst show ?thesis by blast
    next
      case (Arr2 m rows)
      with Dense assms that have "p \<in> set (row_nz (rows ! i))" "length (rows ! i) = n"
        "i < length rows"
        by (simp_all add: csr_of_rows_row list_all_length)
      with row_nz_fst show ?thesis by blast
    qed
  qed
qed

lemma map_nth_fun: "map (\<lambda>k. f (xs ! k)) [0..<length xs] = map f xs"
  by (rule nth_equalityI) simp_all

lemma dot_T_dense:
  assumes X: "valid_input n X" and W: "list_all (\<lambda>r. length r = n) W"
  shows "dot_T (as_csr X) (csr_of_rows n W)
       = Inr (Arr2 (length W) (map (\<lambda>x. map (\<lambda>w. spec_score x w 0) W) (samples X)))"
proof -
  let ?A = "as_csr X"
  note v = valid_input_csr [OF X]
  have entry: "map (\<lambda>k. sparse_dot (csr_row ?A i) (csr_row (csr_of_rows n W) k)) [0..<length W]
       = map (\<lambda>w. spec_score (map (row_get (csr_row ?A i)) [0..<n]) w 0) W"
    if "i < nrows ?A" for i
  proof -
    have "sparse_dot (csr_row ?A i) (csr_row (csr_of_rows n W) k)
        = spec_score (map (row_get (csr_row ?A i)) [0..<n]) (W ! k) 0" if "k < length W" for k
    proof -
      have "length (W ! k) = n"
        using W that by (simp add: list_all_length)
      moreover have "\<forall>p \<in> set (csr_row ?A i). fst p < n"
        using v(3) [OF \<open>i < nrows ?A\<close>] by blast
      ultimately show ?thesis
        using that by (simp add: csr_of_rows_row sparse_dot_row_nz)
    qed
    then have "map (\<lambda>k. sparse_dot (csr_row ?A i) (csr_row (csr_of_rows n W) k)) [0..<length W]
        = map (\<lambda>k. spec_score (map (row_get (csr_row ?A i)) [0..<n]) (W ! k) 0) [0..<length W]"
      by simp
    also have "\<dots> = map (\<lambda>w. spec_score (map (row_get (csr_row ?A i)) [0..<n]) w 0) W"
      by (rule map_nth_fun)
    finally show ?thesis .
  qed
  have "map (\<lambda>i. map (\<lambda>k. sparse_dot (csr_row ?A i) (csr_row (csr_of_rows n W) k)) [0..<length W])
            [0..<nrows ?A]
      = map (\<lambda>i. map (\<lambda>w. spec_score (map (row_get (csr_row ?A i)) [0..<n]) w 0) W) [0..<nrows ?A]"
    using entry by simp
  also have "\<dots> = map (\<lambda>x. map (\<lambda>w. spec_score x w 0) W) (samples X)"
    by (simp add: v(2) comp_def)
  finally show ?thesis
    using v(1) by (simp add: dot_T_def)
qed


lemma spec_score_add: "spec_score x w 0 + b = spec_score x w b"
  by (simp add: spec_score_def)

lemma concat_map_singleton: "concat (map (\<lambda>x. [f x]) xs) = map f xs"
  by (induction xs) simp_all

lemma add_intercept_one_column:
  assumes "ic = Scalar0 b \<or> ic = Vec1 [b]"
  shows "add_intercept (Arr2 (Suc 0) (map (\<lambda>x. [spec_score x w 0]) xs)) ic
       = Inr (Arr2 (Suc 0) (map (\<lambda>x. [spec_score x w b]) xs))"
  using assms by (auto simp add: spec_score_add comp_def)

lemma add_intercept_columns:
  assumes "length bs = length W"
  shows "add_intercept (Arr2 (length W) (map (\<lambda>x. map (\<lambda>w. spec_score x w 0) W) xs)) (Vec1 bs)
       = Inr (Arr2 (length W) (map (\<lambda>x. map (\<lambda>(w, b). spec_score x w b) (zip W bs)) xs))"
proof -
  have "map (\<lambda>(s, b). s + b) (zip (map (\<lambda>w. spec_score x w 0) W) bs)
      = map (\<lambda>(w, b). spec_score x w b) (zip W bs)" for x
    by (simp add: zip_map1 spec_score_add case_prod_unfold)
  with assms show ?thesis
    by (simp add: comp_def)
qed

text \<open>
  Claim C1. For a fitted model (\<^verbatim>\<open>sparse_coef_\<close> is the CSR matrix of \<^verbatim>\<open>coef_\<close>) and an
  input with as many features as \<^verbatim>\<open>coef_\<close> has columns, dense or sparse, the scores are
  \<open>X \<cdot> coef\<^sup>T + intercept\<close>:
  \<^item> a binary classifier (one weight row \<open>w\<close>, intercept \<open>b\<close>, two classes) returns the flat
    sequence of \<open>x \<cdot> w + b\<close> over the samples \<open>x\<close>, so its length is the number of samples;
  \<^item> the regressor's \<^verbatim>\<open>predict\<close> returns the same flat sequence for its 1-D \<^verbatim>\<open>coef_\<close>;
  \<^item> a multiclass classifier (\<open>K\<close> weight rows and \<open>K\<close> intercepts) returns one row per
    sample with the \<open>K\<close> scores \<open>x \<cdot> w\<^sub>k + b\<^sub>k\<close>.
  The model is returned as it was.
\<close>

theorem decision_function_scores:
  "(coef clf = Some (Arr2 n [w]) \<and> length w = n
      \<and> sparse_coef clf = Some (csr_matrix (Arr2 n [w]))
      \<and> (intercept clf = Scalar0 b \<or> intercept clf = Vec1 [b])
      \<and> length (classes clf) = 2 \<and> valid_input n X \<longrightarrow>
    decision_function clf X = (Inr (Arr1 (map (\<lambda>x. spec_score x w b) (samples X))), clf))
 \<and> (coef reg = Some (Arr1 v) \<and> sparse_coef reg = Some (csr_matrix (Arr1 v))
      \<and> (intercept reg = Scalar0 c \<or> intercept reg = Vec1 [c])
      \<and> valid_input (length v) Xr \<longrightarrow>
    predict reg Xr = (Inr (Arr1 (map (\<lambda>x. spec_score x v c) (samples Xr))), reg))
 \<and> (coef mclf = Some (Arr2 m W) \<and> list_all (\<lambda>r. length r = m) W
      \<and> sparse_coef mclf = Some (csr_matrix (Arr2 m W))
      \<and> intercept mclf = Vec1 bs \<and> length bs = length W
      \<and> length (classes mclf) \<noteq> 2 \<and> valid_input m Xm \<longrightarrow>
    decision_function mclf Xm
      = (Inr (Arr2 (length W)
               (map (\<lambda>x. map (\<lambda>(w, b). spec_score x w b) (zip W bs)) (samples Xm))), mclf))"
proof (intro conjI impI)
  assume a: "coef clf = Some (Arr2 n [w]) \<and> length w = n
      \<and> sparse_coef clf = Some (csr_matrix (Arr2 n [w]))
      \<and> (intercept clf = Scalar0 b \<or> intercept clf = Vec1 [b])
      \<and> length (classes clf) = 2 \<and> valid_input n X"
  then have X: "valid_input n X" and W: "list_all (\<lambda>r. length r = n) [w]"
    and i: "intercept clf = Scalar0 b \<or> intercept clf = Vec1 [b]"
    by simp_all
  from dot_T_dense [OF X W]
  have d: "dot_T (as_csr X) (csr_of_rows n [w])
       = Inr (Arr2 1 (map (\<lambda>x. map (\<lambda>w. spec_score x w 0) [w]) (samples X)))"
    by simp
  show "decision_function clf X = (Inr (Arr1 (map (\<lambda>x. spec_score x w b) (samples X))), clf)"
    using a by (simp add: decision_function_def d add_intercept_one_column [OF i]
        concat_map_singleton del: add_intercept.simps)
next
  assume a: "coef reg = Some (Arr1 v) \<and> sparse_coef reg = Some (csr_matrix (Arr1 v))
      \<and> (intercept reg = Scalar0 c \<or> intercept reg = Vec1 [c])
      \<and> valid_input (length v) Xr"
  then have X: "valid_input (length v) Xr" and W: "list_all (\<lambda>r. length r = length v) [v]"
    and i: "intercept reg = Scalar0 c \<or> intercept reg = Vec1 [c]"
    by simp_all
  from dot_T_dense [OF X W]
  have d: "dot_T (as_csr Xr) (csr_of_rows (length v) [v])
       = Inr (Arr2 1 (map (\<lambda>x. map (\<lambda>w. spec_score x w 0) [v]) (samples Xr)))"
    by simp
  show "predict reg Xr = (Inr (Arr1 (map (\<lambda>x. spec_score x v c) (samples Xr))), reg)"
    using a by (simp add: predict_def d add_intercept_one_column [OF i]
        concat_map_singleton del: add_intercept.simps)
next
  assume a: "coef mclf = Some (Arr2 m W) \<and> list_all (\<lambda>r. length r = m) W
      \<and> sparse_coef mclf = Some (csr_matrix (Arr2 m W))
      \<and> intercept mclf = Vec1 bs \<and> length bs = length W
      \<and> length (classes mclf) \<noteq> 2 \<and> valid_input m Xm"
  then have X: "valid_input m Xm" and W: "list_all (\<lambda>r. length r = m) W"
    and l: "length bs = length W"
    by simp_all
  note d = dot_T_dense [OF X W]
  show "decision_function mclf Xm
      = (Inr (Arr2 (length W)
               (map (\<lambda>x. map (\<lambda>(w, b). spec_score x w b) (zip W bs)) (samples Xm))), mclf)"
    using a by (simp add: decision_function_def d add_intercept_columns [OF l]
        del: add_intercept.simps)
qed


text \<open>More of the three example fits.\<close>

lemma example_fitted:
  "sparse_coef (snd (fit_binary inplace_kernel example_classifier example_X example_y))
     = Some (csr_matrix (Arr2 2 [[5, 5]]))"
  "intercept (snd (fit_binary inplace_kernel example_classifier example_X example_y)) = Scalar0 4"
  "length (classes (snd (fit_binary inplace_kernel example_classifier example_X example_y))) = 2"
  "sparse_coef (snd (fit_multiclass inplace_kernel True example_multiclass example_X example_y3))
     = Some (csr_matrix (Arr2 2 [[3, 3], [5, 5], [7, 7]]))"
  "intercept (snd (fit_multiclass inplace_kernel True example_multiclass example_X example_y3))
     = Vec1 [4, 4, 4]"
  "length (classes (snd (fit_multiclass inplace_kernel True example_multiclass example_X
     example_y3))) \<noteq> 2"
  "sparse_coef (snd (fit_regressor inplace_kernel example_regressor example_X example_y))
     = Some (csr_matrix (Arr1 [1, 1]))"
  "intercept (snd (fit_regressor inplace_kernel example_regressor example_X example_y)) = Scalar0 4"
  by (simp_all add: fit_binary_def binary_call_def binary_finish_def fit_multiclass_def
      fit_regressor_def regressor_call_def regressor_finish_def set_coef_def write_one_def
      ova_task_def train_ova_classifier_def task_effect_def inplace_kernel_def
      example_classifier_def example_multiclass_def example_regressor_def
      example_y_def example_y3_def index_def written_def Let_def encode_labels_eq
      numeral_2_eq_2)

text \<open>
  Claim C1 on the fitted examples: the binary classifier and the three-class classifier on
  the dense training matrix, the regressor on a sparse matrix with rows \<open>[0, 2]\<close> and
  \<open>[3, 0]\<close>.
\<close>

theorem decision_function_scores_witness:
  "decision_function (snd (fit_binary inplace_kernel example_classifier example_X example_y))
       example_X
     = (Inr (Arr1 [- 6, - 11, 14, 19]),
        snd (fit_binary inplace_kernel example_classifier example_X example_y))
   \<and> predict (snd (fit_regressor inplace_kernel example_regressor example_X example_y))
       (Sparse \<lparr>nrows = 2, ncols = 2, data = [2, 3], indices = [1, 0], indptr = [0, 1, 2]\<rparr>)
     = (Inr (Arr1 [6, 7]),
        snd (fit_regressor inplace_kernel example_regressor example_X example_y))
   \<and> decision_function
       (snd (fit_multiclass inplace_kernel True example_multiclass example_X example_y3))
       example_X
     = (Inr (Arr2 3 [[- 2, - 6, - 10], [- 5, - 11, - 17], [10, 14, 18], [13, 19, 25]]),
        snd (fit_multiclass inplace_kernel True example_multiclass example_X example_y3))"
proof -
  let ?clf = "snd (fit_binary inplace_kernel example_classifier example_X example_y)"
  let ?reg = "snd (fit_regressor inplace_kernel example_regressor example_X example_y)"
  let ?mclf = "snd (fit_multiclass inplace_kernel True example_multiclass example_X example_y3)"
  let ?A = "\<lparr>nrows = 2, ncols = 2, data = [2, 3], indices = [1, 0], indptr = [0, 1, 2]\<rparr> :: csr"
  note t = decision_function_scores
    [where clf = ?clf and n = 2 and w = "[5, 5]" and b = 4 and X = example_X
       and reg = ?reg and v = "[1, 1]" and c = 4 and Xr = "Sparse ?A"
       and mclf = ?mclf and m = 2 and W = "[[3, 3], [5, 5], [7, 7]]" and bs = "[4, 4, 4]"
       and Xm = example_X]
  have vx: "valid_input 2 example_X"
    by (simp add: example_X_def)
  have va: "valid_input (length [1, 1 :: real]) (Sparse ?A)"
    by (simp add: csr_wf_def)
  have sx: "samples example_X = [[- 1, - 1], [- 2, - 1], [1, 1], [2, 1]]"
    by (simp add: example_X_def)
  have sa: "samples (Sparse ?A) = [[0, 2], [3, 0]]"
    by (simp add: todense_def csr_row_def row_get_def Let_def upt_rec numeral_2_eq_2)
  have 1: "decision_function ?clf example_X
      = (Inr (Arr1 (map (\<lambda>x. spec_score x [5, 5] 4) (samples example_X))), ?clf)"
    using t example_fits(2) example_fitted(1,2,3) vx by simp
  have 2: "predict ?reg (Sparse ?A)
      = (Inr (Arr1 (map (\<lambda>x. spec_score x [1, 1] 4) (samples (Sparse ?A)))), ?reg)"
    using t example_fits(6) example_fitted(7,8) va by simp
  have 3: "decision_function ?mclf example_X
      = (Inr (Arr2 (length [[3, 3], [5, 5], [7, 7 :: real]])
               (map (\<lambda>x. map (\<lambda>(w, b). spec_score x w b)
                       (zip [[3, 3], [5, 5], [7, 7]] [4, 4, 4])) (samples example_X))), ?mclf)"
    using t example_fits(4) example_fitted(4,5,6) vx by simp
  show ?thesis
    unfolding 1 2 3 sx sa by (simp add: spec_score_def)
qed

end
